theory Spec2Isabelle
  imports Main
begin

section \<open>JavaScript values\<close>

text \<open>
  The dashboard works on values decoded by \<open>JSON.parse\<close> and on the object literals it
  builds from them. \<open>JObj\<close> lists an object's own properties in enumeration order;
  \<open>JUndefined\<close> is the value of a missing property (\<open>JSON.parse\<close> never produces it, a
  property read does). Numbers are IEEE doubles in the source; the model leaves their
  representation open (the type parameter \<open>'n\<close>). What the JavaScript engine fixes and the
  code can observe is a parameter, \<open>number_ops\<close>: three facts about a number, how deep a
  value \<open>JSON.stringify\<close> and \<open>String\<close> walk before the call stack runs out (they throw a
  \<open>RangeError\<close> then), and the text of the members of \<open>Object.prototype\<close>.
\<close>

datatype 'n json =
    JUndefined
  | JNull
  | JBool bool
  | JNum 'n
  | JStr string
  | JArr "'n json list"
  | JObj "(string \<times> 'n json) list"

record 'n number_ops =
  num_to_string :: "'n \<Rightarrow> string"  \<comment> \<open>\<open>Number::toString\<close>, as \<open>String(x)\<close> uses it\<close>
  num_is_finite :: "'n \<Rightarrow> bool"  \<comment> \<open>neither \<open>NaN\<close> nor an infinity\<close>
  num_is_falsy :: "'n \<Rightarrow> bool"  \<comment> \<open>\<open>0\<close>, \<open>-0\<close> or \<open>NaN\<close>\<close>
  stringify_depth :: nat  \<comment> \<open>levels of arrays and objects \<open>JSON.stringify\<close> can enter\<close>
  join_depth :: nat  \<comment> \<open>levels of nested arrays \<open>String\<close> can enter\<close>
  inherited_text :: "string \<Rightarrow> string option"
    \<comment> \<open>\<open>String(Object.prototype[k])\<close> for a name \<open>k\<close> that \<open>Object.prototype\<close> defines\<close>

datatype js_error = SyntaxError | TypeError | RangeError

text \<open>A thrown exception is the left summand; \<open>and_then\<close> continues after a call that returned.\<close>

definition and_then :: "js_error + 'a \<Rightarrow> ('a \<Rightarrow> js_error + 'b) \<Rightarrow> js_error + 'b" where
  "and_then m f = (case m of Inl e \<Rightarrow> Inl e | Inr x \<Rightarrow> f x)"

text \<open>\<open>xs.map(f)\<close> with a callback that may throw: the first exception leaves the loop.\<close>

fun traverse :: "('a \<Rightarrow> js_error + 'b) \<Rightarrow> 'a list \<Rightarrow> js_error + 'b list" where
  "traverse f [] = Inr []"
| "traverse f (x # xs) =
     and_then (f x) (\<lambda>y. and_then (traverse f xs) (\<lambda>ys. Inr (y # ys)))"

fun truthy :: "'n number_ops \<Rightarrow> 'n json \<Rightarrow> bool" where
  "truthy ops JUndefined = False"
| "truthy ops JNull = False"
| "truthy ops (JBool b) = b"
| "truthy ops (JNum n) = (\<not> num_is_falsy ops n)"
| "truthy ops (JStr s) = (s \<noteq> [])"
| "truthy ops (JArr xs) = True"
| "truthy ops (JObj kvs) = True"

text \<open>\<open>typeof v === "object"\<close> holds of \<open>null\<close>, of arrays and of objects.\<close>

fun typeof_object :: "'n json \<Rightarrow> bool" where
  "typeof_object JNull = True"
| "typeof_object (JArr xs) = True"
| "typeof_object (JObj kvs) = True"
| "typeof_object v = False"

fun typeof_string :: "'n json \<Rightarrow> bool" where
  "typeof_string (JStr s) = True"
| "typeof_string v = False"

text \<open>The index a property name denotes on an array: a decimal numeral without leading zero.\<close>

definition is_digit :: "char \<Rightarrow> bool" where
  "is_digit c = (48 \<le> (of_char c :: nat) \<and> (of_char c :: nat) \<le> 57)"

definition array_index :: "string \<Rightarrow> nat option" where
  "array_index k =
     (if k = [] \<or> \<not> list_all is_digit k \<or> (1 < length k \<and> hd k = CHR ''0'') then None
      else Some (foldl (\<lambda>a c. 10 * a + (of_char c - 48)) 0 k))"

text \<open>
  \<open>k in v\<close> and \<open>v[k]\<close> over own data properties. The names the dashboard uses are never
  \<open>length\<close> or a name the prototypes define, and it never indexes a string, so inherited
  properties and the characters of a string are left out. \<open>in\<close> throws on a primitive, a
  property read throws on \<open>null\<close> and \<open>undefined\<close>.
\<close>

fun js_in :: "string \<Rightarrow> 'n json \<Rightarrow> js_error + bool" where
  "js_in k (JObj kvs) = Inr (k \<in> set (map fst kvs))"
| "js_in k (JArr xs) = Inr (case array_index k of None \<Rightarrow> False | Some i \<Rightarrow> i < length xs)"
| "js_in k v = Inl TypeError"

fun js_get :: "'n json \<Rightarrow> string \<Rightarrow> js_error + 'n json" where
  "js_get JUndefined k = Inl TypeError"
| "js_get JNull k = Inl TypeError"
| "js_get (JObj kvs) k = Inr (case map_of kvs k of None \<Rightarrow> JUndefined | Some v \<Rightarrow> v)"
| "js_get (JArr xs) k =
     Inr (case array_index k of None \<Rightarrow> JUndefined
          | Some i \<Rightarrow> if i < length xs then xs ! i else JUndefined)"
| "js_get v k = Inr JUndefined"

text \<open>\<open>v ?? d\<close>.\<close>

definition nullish_or :: "'n json \<Rightarrow> 'n json \<Rightarrow> 'n json" where
  "nullish_or v d = (if v = JUndefined \<or> v = JNull then d else v)"

text \<open>\<open>n && n.k\<close>: the property is read only when \<open>n\<close> is truthy, otherwise \<open>n\<close> itself results.\<close>

definition and_get :: "'n number_ops \<Rightarrow> 'n json \<Rightarrow> string \<Rightarrow> js_error + 'n json" where
  "and_get ops n k = (if truthy ops n then js_get n k else Inr n)"

fun join_comma :: "string list \<Rightarrow> string" where
  "join_comma [] = []"
| "join_comma [s] = s"
| "join_comma (s # t # ss) = s @ '','' @ join_comma (t # ss)"

text \<open>
  \<open>String(v)\<close> with \<open>d\<close> levels of stack left. An object answers \<open>[object Object]\<close> through
  the inherited \<open>toString\<close>; an own \<open>toString\<close> member of a decoded object is data, not a
  function, so the conversion finds no primitive and throws a \<open>TypeError\<close>. An array joins
  the strings of its elements with commas, \<open>null\<close> and \<open>undefined\<close> as empty, from left to
  right, and the first exception leaves the loop.
\<close>

fun to_string_at :: "'n number_ops \<Rightarrow> nat \<Rightarrow> 'n json \<Rightarrow> js_error + string" where
  "to_string_at ops d JUndefined = Inr ''undefined''"
| "to_string_at ops d JNull = Inr ''null''"
| "to_string_at ops d (JBool b) = Inr (if b then ''true'' else ''false'')"
| "to_string_at ops d (JNum n) = Inr (num_to_string ops n)"
| "to_string_at ops d (JStr s) = Inr s"
| "to_string_at ops d (JObj kvs) =
     (if ''toString'' \<in> set (map fst kvs) then Inl TypeError else Inr ''[object Object]'')"
| "to_string_at ops 0 (JArr xs) = Inl RangeError"
| "to_string_at ops (Suc d) (JArr xs) =
     and_then
       (traverse (\<lambda>x. if x = JUndefined \<or> x = JNull then Inr [] else to_string_at ops d x) xs)
       (\<lambda>ss. Inr (join_comma ss))"

definition js_String :: "'n number_ops \<Rightarrow> 'n json \<Rightarrow> js_error + string" where
  "js_String ops v = to_string_at ops (join_depth ops) v"

definition hex_digit :: "nat \<Rightarrow> char" where
  "hex_digit n = ''0123456789abcdef'' ! (n mod 16)"

text \<open>\<open>QuoteJSONString\<close> on the characters of a \<open>string\<close>.\<close>

definition escape_char :: "char \<Rightarrow> string" where
  "escape_char c =
     (if c = CHR 0x22 then [CHR 0x5C, CHR 0x22]
      else if c = CHR 0x5C then [CHR 0x5C, CHR 0x5C]
      else if c = CHR 0x08 then [CHR 0x5C, CHR ''b'']
      else if c = CHR 0x0C then [CHR 0x5C, CHR ''f'']
      else if c = CHR 0x0A then [CHR 0x5C, CHR ''n'']
      else if c = CHR 0x0D then [CHR 0x5C, CHR ''r'']
      else if c = CHR 0x09 then [CHR 0x5C, CHR ''t'']
      else if (of_char c :: nat) < 32
        then [CHR 0x5C, CHR ''u'', CHR ''0'', CHR ''0'',
              hex_digit (of_char c div 16), hex_digit (of_char c)]
      else [c])"

definition quote :: "string \<Rightarrow> string" where
  "quote s = [CHR 0x22] @ concat (map escape_char s) @ [CHR 0x22]"

text \<open>
  The text \<open>JSON.stringify\<close> writes for a value with \<open>d\<close> levels of stack left: \<open>undefined\<close>
  is \<open>null\<close> in an array and its property is skipped in an object; a number that is not
  finite is \<open>null\<close>; an own \<open>toJSON\<close> member of a decoded value is data and is not called.
\<close>

fun json_text :: "'n number_ops \<Rightarrow> nat \<Rightarrow> 'n json \<Rightarrow> js_error + string" where
  "json_text ops d JUndefined = Inr ''null''"
| "json_text ops d JNull = Inr ''null''"
| "json_text ops d (JBool b) = Inr (if b then ''true'' else ''false'')"
| "json_text ops d (JNum n) =
     Inr (if num_is_finite ops n then num_to_string ops n else ''null'')"
| "json_text ops d (JStr s) = Inr (quote s)"
| "json_text ops 0 (JArr xs) = Inl RangeError"
| "json_text ops (Suc d) (JArr xs) =
     and_then (traverse (json_text ops d) xs) (\<lambda>ts. Inr (''['' @ join_comma ts @ '']''))"
| "json_text ops 0 (JObj kvs) = Inl RangeError"
| "json_text ops (Suc d) (JObj kvs) =
     and_then
       (traverse (\<lambda>(k, v). and_then (json_text ops d v) (\<lambda>t. Inr (quote k @ '':'' @ t)))
          (filter (\<lambda>(k, v). v \<noteq> JUndefined) kvs))
       (\<lambda>ts. Inr (''{'' @ join_comma ts @ ''}''))"

text \<open>
  \<open>JSON.stringify(v)\<close>: \<open>undefined\<close> at the top gives \<open>undefined\<close>, everything else a string,
  or a \<open>RangeError\<close> when the value is nested deeper than the stack allows.
\<close>

definition JSON_stringify :: "'n number_ops \<Rightarrow> 'n json \<Rightarrow> js_error + 'n json" where
  "JSON_stringify ops v =
     (if v = JUndefined then Inr JUndefined
      else and_then (json_text ops (stringify_depth ops) v) (\<lambda>t. Inr (JStr t)))"

text \<open>How deep a value is nested: the levels of arrays and objects on its longest path.\<close>

fun nesting :: "'n json \<Rightarrow> nat" where
  "nesting (JArr xs) = Suc (foldr max (map nesting xs) 0)"
| "nesting (JObj kvs) = Suc (foldr max (map (\<lambda>(k, v). nesting v) kvs) 0)"
| "nesting v = 0"

text \<open>The decimal numeral of a natural number, as a template literal prints a small integer.\<close>

fun dec :: "nat \<Rightarrow> string" where
  "dec n = (if n < 10 then [hex_digit n] else dec (n div 10) @ [hex_digit (n mod 10)])"

declare dec.simps [simp del]

section \<open>Normalised shapes\<close>

text \<open>
  The types \<open>NormalizedModelProvisioningStatus\<close>, \<open>NormalizedNeuron\<close>,
  \<open>NormalizedProvisioningCommand\<close>, \<open>NormalizedObserveEvent\<close> and
  \<open>NormalizedObserveMessage\<close> of \<open>Dashboard.tsx\<close>. A field the source copies from the wire
  without a conversion keeps the type \<open>json\<close>, whatever its TypeScript annotation says.
\<close>

record 'n NormalizedModelProvisioningStatus =
  model_id :: "'n json"
  last_cmd_kind :: "'n json"
  last_response :: "'n json"
  effective_status :: "'n json"

record 'n NormalizedNeuron =
  descriptor :: "'n json"
  last_heartbeat_at :: "'n json"
  health :: "'n json"
  offline :: bool
  models :: "'n NormalizedModelProvisioningStatus list"

datatype 'n NormalizedProvisioningCommand =
    UpsertModelConfig "'n json"
  | LoadModel "'n json"
  | UnloadModel "'n json"

datatype 'n NormalizedObserveEvent =
    NeuronRegistered "'n json"
  | NeuronRemoved string
  | NeuronHeartbeat string "'n json"
  | ProvisioningSent string "'n NormalizedProvisioningCommand"
  | ProvisioningResponse string "'n json"
  | ModelStateChanged string "'n NormalizedModelProvisioningStatus list"
  | CortexShutdownNotice "'n json"

text \<open>
  \<open>normalizeMessage\<close> hands back the wire object itself (\<open>wire as unknown as
  NormalizedObserveMessage\<close>) when it finds no event it knows: \<open>Unnormalized\<close>.
\<close>

datatype 'n NormalizedObserveMessage =
    Snapshot "'n NormalizedNeuron list"
  | Event "'n NormalizedObserveEvent"
  | Unnormalized "'n json"

text \<open>The JavaScript object each normalised value is, with the keys in the order of its literal.\<close>

definition json_of_status :: "'n NormalizedModelProvisioningStatus \<Rightarrow> 'n json" where
  "json_of_status m =
     JObj [(''model_id'', model_id m), (''last_cmd_kind'', last_cmd_kind m),
           (''last_response'', last_response m), (''effective_status'', effective_status m)]"

definition json_of_neuron :: "'n NormalizedNeuron \<Rightarrow> 'n json" where
  "json_of_neuron n =
     JObj [(''descriptor'', descriptor n), (''last_heartbeat_at'', last_heartbeat_at n),
           (''health'', health n), (''offline'', JBool (offline n)),
           (''models'', JArr (map json_of_status (models n)))]"

definition json_of_snapshot :: "'n NormalizedNeuron list \<Rightarrow> 'n json" where
  "json_of_snapshot ns = JObj [(''neurons'', JArr (map json_of_neuron ns))]"

fun json_of_command :: "'n NormalizedProvisioningCommand \<Rightarrow> 'n json" where
  "json_of_command (UpsertModelConfig c) =
     JObj [(''kind'', JStr ''upsert_model_config''), (''config'', c)]"
| "json_of_command (LoadModel m) = JObj [(''kind'', JStr ''load_model''), (''model_id'', m)]"
| "json_of_command (UnloadModel m) = JObj [(''kind'', JStr ''unload_model''), (''model_id'', m)]"

fun json_of_event :: "'n NormalizedObserveEvent \<Rightarrow> 'n json" where
  "json_of_event (NeuronRegistered d) =
     JObj [(''type'', JStr ''neuron_registered''), (''neuron'', d)]"
| "json_of_event (NeuronRemoved nid) =
     JObj [(''type'', JStr ''neuron_removed''), (''neuron_id'', JStr nid)]"
| "json_of_event (NeuronHeartbeat nid metrics) =
     JObj [(''type'', JStr ''neuron_heartbeat''), (''neuron_id'', JStr nid),
           (''metrics'', metrics)]"
| "json_of_event (ProvisioningSent nid cmd) =
     JObj [(''type'', JStr ''provisioning_sent''), (''neuron_id'', JStr nid),
           (''cmd'', json_of_command cmd)]"
| "json_of_event (ProvisioningResponse nid response) =
     JObj [(''type'', JStr ''provisioning_response''), (''neuron_id'', JStr nid),
           (''response'', response)]"
| "json_of_event (ModelStateChanged nid ms) =
     JObj [(''type'', JStr ''model_state_changed''), (''neuron_id'', JStr nid),
           (''models'', JArr (map json_of_status ms))]"
| "json_of_event (CortexShutdownNotice reason) =
     JObj [(''type'', JStr ''cortex_shutdown_notice''), (''reason'', reason)]"

fun json_of_message :: "'n NormalizedObserveMessage \<Rightarrow> 'n json" where
  "json_of_message (Snapshot ns) =
     JObj [(''kind'', JStr ''snapshot''), (''snapshot'', json_of_snapshot ns)]"
| "json_of_message (Event e) = JObj [(''kind'', JStr ''event''), (''event'', json_of_event e)]"
| "json_of_message (Unnormalized wire) = wire"

section \<open>The wire normaliser\<close>

definition normalizeModelId :: "'n number_ops \<Rightarrow> 'n json \<Rightarrow> js_error + 'n json" where
  "normalizeModelId ops mid =
     (if typeof_string mid then Inr mid
      else if truthy ops mid \<and> typeof_object mid then
        and_then (js_in ''0'' mid) (\<lambda>has.
          if has then
            and_then (js_get mid ''0'') (\<lambda>v.
              if typeof_string v then Inr v else JSON_stringify ops mid)
          else JSON_stringify ops mid)
      else JSON_stringify ops mid)"

text \<open>
  \<open>typeof mid === "string" ? mid : normalizeModelId(mid)\<close>, as \<open>normalizeProvisioningCommand\<close>
  writes it three times.
\<close>

definition model_id_of :: "'n number_ops \<Rightarrow> 'n json \<Rightarrow> js_error + 'n json" where
  "model_id_of ops mid = (if typeof_string mid then Inr mid else normalizeModelId ops mid)"

definition normalizeProvisioningCommand ::
    "'n number_ops \<Rightarrow> 'n json \<Rightarrow> js_error + 'n NormalizedProvisioningCommand" where
  "normalizeProvisioningCommand ops wire =
     (if \<not> truthy ops wire \<or> \<not> typeof_object wire then Inr (UpsertModelConfig wire)
      else
        and_then
          (and_then (js_in ''kind'' wire) (\<lambda>has_kind.
             if has_kind then
               and_then (js_get wire ''kind'') (\<lambda>k.
                 if k = JStr ''upsert_model_config'' then
                   and_then (js_get wire ''config'') (\<lambda>c. Inr (Some (UpsertModelConfig c)))
                 else if k = JStr ''load_model'' then
                   and_then (js_get wire ''model_id'') (\<lambda>mid.
                     and_then (model_id_of ops mid) (\<lambda>m. Inr (Some (LoadModel m))))
                 else if k = JStr ''unload_model'' then
                   and_then (js_get wire ''model_id'') (\<lambda>mid.
                     and_then (model_id_of ops mid) (\<lambda>m. Inr (Some (UnloadModel m))))
                 else Inr None)
             else Inr None))
          (\<lambda>returned.
             case returned of
               Some cmd \<Rightarrow> Inr cmd
             | None \<Rightarrow>
                 and_then (js_in ''UpsertModelConfig'' wire) (\<lambda>has_upsert.
                   if has_upsert then
                     and_then (js_get wire ''UpsertModelConfig'') (\<lambda>c. Inr (UpsertModelConfig c))
                   else
                     and_then (js_in ''LoadModel'' wire) (\<lambda>has_load.
                       if has_load then
                         and_then (js_get wire ''LoadModel'') (\<lambda>mid.
                           and_then (model_id_of ops mid) (\<lambda>m. Inr (LoadModel m)))
                       else
                         and_then (js_in ''UnloadModel'' wire) (\<lambda>has_unload.
                           if has_unload then
                             and_then (js_get wire ''UnloadModel'') (\<lambda>mid.
                               and_then (model_id_of ops mid) (\<lambda>m. Inr (UnloadModel m)))
                           else Inr (UpsertModelConfig wire))))))"

text \<open>
  The arrow function both \<open>normalizeSnapshot\<close> and \<open>normalizeMessage\<close> map over a model list:
  \<open>m.model_id\<close> throws when \<open>m\<close> is \<open>null\<close>.
\<close>

definition normalizeModelStatus ::
    "'n number_ops \<Rightarrow> 'n json \<Rightarrow> js_error + 'n NormalizedModelProvisioningStatus" where
  "normalizeModelStatus ops m =
     and_then (js_get m ''model_id'') (\<lambda>mid.
     and_then (normalizeModelId ops mid) (\<lambda>nid.
     and_then (js_get m ''last_cmd_kind'') (\<lambda>k.
     and_then (js_get m ''last_response'') (\<lambda>r.
     and_then (js_get m ''effective_status'') (\<lambda>e.
       Inr \<lparr>model_id = nid, last_cmd_kind = nullish_or k (JStr ''unknown''),
            last_response = nullish_or r JNull,
            effective_status = nullish_or e (JStr ''unknown'')\<rparr>)))))"

text \<open>\<open>Array.isArray(v) ? v.map(normalizeModelStatus) : []\<close>.\<close>

fun normalizeModels ::
    "'n number_ops \<Rightarrow> 'n json \<Rightarrow> js_error + 'n NormalizedModelProvisioningStatus list" where
  "normalizeModels ops (JArr ms) = traverse (normalizeModelStatus ops) ms"
| "normalizeModels ops v = Inr []"

text \<open>The callback of \<open>neuronsWire.map\<close> in \<open>normalizeSnapshot\<close>, at the element \<open>n\<close> of index \<open>idx\<close>.\<close>

definition normalizeNeuron ::
    "'n number_ops \<Rightarrow> 'n json \<times> nat \<Rightarrow> js_error + 'n NormalizedNeuron" where
  "normalizeNeuron ops p =
     (case p of (n, idx) \<Rightarrow>
       and_then (if truthy ops n \<and> typeof_object n then js_in ''descriptor'' n else Inr False)
         (\<lambda>structured.
           if structured then
             and_then (js_get n ''descriptor'') (\<lambda>d.
             and_then (js_get n ''last_heartbeat_at'') (\<lambda>hb.
             and_then (js_get n ''health'') (\<lambda>h.
             and_then (js_get n ''offline'') (\<lambda>off.
             and_then (js_get n ''models'') (\<lambda>ms.
             and_then (normalizeModels ops ms) (\<lambda>nms.
               Inr \<lparr>descriptor = d, last_heartbeat_at = nullish_or hb JNull,
                    health = nullish_or h (JStr ''unknown''), offline = truthy ops off,
                    models = nms\<rparr>))))))
           else
             and_then (and_get ops n ''node_id'') (\<lambda>node.
             and_then (and_get ops n ''label'') (\<lambda>label.
             and_then (and_get ops n ''metadata'') (\<lambda>meta.
               Inr \<lparr>descriptor =
                      JObj [(''node_id'', nullish_or node JNull),
                            (''label'',
                               nullish_or (nullish_or label node)
                                 (JStr (''Neuron #'' @ dec (idx + 1)))),
                            (''metadata'', nullish_or meta (JObj []))],
                    last_heartbeat_at = JNull, health = JStr ''unknown'', offline = False,
                    models = []\<rparr>)))))"

definition normalizeSnapshot ::
    "'n number_ops \<Rightarrow> 'n json \<Rightarrow> js_error + 'n NormalizedNeuron list" where
  "normalizeSnapshot ops snapshot =
     and_then (js_get snapshot ''neurons'') (\<lambda>neurons.
       let neuronsWire = (case neurons of JArr ns \<Rightarrow> ns | _ \<Rightarrow> [])
       in traverse (normalizeNeuron ops) (zip neuronsWire [0 ..< length neuronsWire]))"

text \<open>The \<open>switch (e.type)\<close> of \<open>normalizeMessage\<close>; \<open>None\<close> is its \<open>default\<close> branch.\<close>

definition normalizeEvent ::
    "'n number_ops \<Rightarrow> 'n json \<Rightarrow> string \<Rightarrow> js_error + 'n NormalizedObserveEvent option" where
  "normalizeEvent ops e t =
     (if t = ''neuron_registered'' then
        and_then (js_get e ''neuron'') (\<lambda>d. Inr (Some (NeuronRegistered d)))
      else if t = ''neuron_removed'' then
        and_then (js_get e ''neuron_id'') (\<lambda>nid.
        and_then (js_String ops nid) (\<lambda>neuron_id. Inr (Some (NeuronRemoved neuron_id))))
      else if t = ''neuron_heartbeat'' then
        and_then (js_get e ''neuron_id'') (\<lambda>nid.
        and_then (js_String ops nid) (\<lambda>neuron_id.
        and_then (js_get e ''metrics'') (\<lambda>metrics.
          Inr (Some (NeuronHeartbeat neuron_id (nullish_or metrics (JObj [])))))))
      else if t = ''provisioning_sent'' then
        and_then (js_get e ''neuron_id'') (\<lambda>nid.
        and_then (js_String ops nid) (\<lambda>neuron_id.
        and_then (js_get e ''cmd'') (\<lambda>c.
        and_then (normalizeProvisioningCommand ops c) (\<lambda>cmd.
          Inr (Some (ProvisioningSent neuron_id cmd))))))
      else if t = ''provisioning_response'' then
        and_then (js_get e ''neuron_id'') (\<lambda>nid.
        and_then (js_String ops nid) (\<lambda>neuron_id.
        and_then (js_get e ''response'') (\<lambda>r.
          Inr (Some (ProvisioningResponse neuron_id r)))))
      else if t = ''model_state_changed'' then
        and_then (js_get e ''models'') (\<lambda>ms.
        and_then (normalizeModels ops ms) (\<lambda>nms.
        and_then (js_get e ''neuron_id'') (\<lambda>nid.
        and_then (js_String ops nid) (\<lambda>neuron_id.
          Inr (Some (ModelStateChanged neuron_id nms))))))
      else if t = ''cortex_shutdown_notice'' then
        and_then (js_get e ''reason'') (\<lambda>r. Inr (Some (CortexShutdownNotice (nullish_or r JNull))))
      else Inr None)"

definition normalizeMessage ::
    "'n number_ops \<Rightarrow> 'n json \<Rightarrow> js_error + 'n NormalizedObserveMessage" where
  "normalizeMessage ops wire =
     and_then (js_get wire ''kind'') (\<lambda>k.
       if k = JStr ''snapshot'' then
         and_then (js_get wire ''snapshot'') (\<lambda>s.
         and_then (normalizeSnapshot ops s) (\<lambda>ns. Inr (Snapshot ns)))
       else
         and_then (js_get wire ''event'') (\<lambda>e.
           if \<not> truthy ops e \<or> \<not> typeof_object e then Inr (Unnormalized wire)
           else
             and_then (js_get e ''type'') (\<lambda>t.
               case t of
                 JStr ty \<Rightarrow>
                   and_then (normalizeEvent ops e ty) (\<lambda>r.
                     case r of
                       Some ev \<Rightarrow> Inr (Event ev)
                     | None \<Rightarrow> Inr (Unnormalized wire))
               | _ \<Rightarrow> Inr (Unnormalized wire))))"

section \<open>The dashboard's state\<close>

datatype ConnectionStatus = Connecting | Open | Polling | Closed | Error

text \<open>
  \<open>EventLogItem\<close>. The sequence id is a JavaScript number that counts up from 1 by 1; the
  model counts in \<open>nat\<close>, which agrees with it on every integer a double holds exactly.
\<close>

record 'n EventLogItem =
  item_id :: nat
  receivedAt :: string
  kind :: "'n json"
  eventType :: "'n json"
  payload :: "'n NormalizedObserveMessage"

record 'n ShutdownState =
  seenShutdownNotice :: bool
  lastReason :: "'n json"
  lastSeenAt :: "string option"

text \<open>The three texts \<open>setLastError\<close> is given, by the exception they quote.\<close>

datatype error_text =
    FailedToParse js_error  \<comment> \<open>\<open>"Failed to parse message: " + err.message\<close>\<close>
  | WebSocketErrorText  \<comment> \<open>\<open>"WebSocket error (see browser console for details)"\<close>\<close>
  | FailedToOpen js_error  \<comment> \<open>\<open>err.message\<close> of the exception \<open>new WebSocket\<close> threw\<close>

text \<open>
  The browser's side: the \<open>readyState\<close> of every socket the component has constructed
  (a socket's handle is its position in the list) and the pending timeouts.
\<close>

datatype readyState = CONNECTING | OPEN | CLOSING | CLOSED

text \<open>
  A pulse id in \<open>heartbeatAnimIds\<close>: a count, or the text that \<open>+ 1\<close> makes of a value that
  is not a number.
\<close>

datatype pulse = Count nat | Text string

datatype timer_callback = ReconnectPoll | PulseExpiry string pulse

record timer =
  timer_id :: nat
  delay_ms :: nat
  callback :: timer_callback

text \<open>
  The component's \<open>useState\<close> cells and \<open>useRef\<close> cells, then the browser's side.
  \<open>autoScroll\<close> and \<open>logEndRef\<close> only drive the scrolling of the rendered log and are
  left out. \<open>snapshot\<close> holds the \<open>neurons\<close> array of the stored object, \<open>None\<close> is \<open>null\<close>.
\<close>

record 'n dashboard =
  connectionStatus :: ConnectionStatus
  lastError :: "error_text option"
  snapshot :: "'n NormalizedNeuron list option"
  events :: "'n EventLogItem list"
  shutdownState :: "'n ShutdownState"
  isInitialLoading :: bool
  heartbeatAnimIds :: "string \<rightharpoonup> pulse"
  wsRef :: "nat option"
  nextEventIdRef :: nat
  pollingTimerRef :: "nat option"
  sockets :: "readyState list"
  timers :: "timer list"
  nextTimerId :: nat

definition initial :: "'n dashboard" where
  "initial =
     \<lparr>connectionStatus = Connecting, lastError = None, snapshot = None, events = [],
      shutdownState = \<lparr>seenShutdownNotice = False, lastReason = JNull, lastSeenAt = None\<rparr>,
      isInitialLoading = True, heartbeatAnimIds = Map.empty, wsRef = None,
      nextEventIdRef = 1, pollingTimerRef = None, sockets = [], timers = [],
      nextTimerId = 0\<rparr>"

section \<open>Polling (reconnect)\<close>

text \<open>\<open>window.setTimeout(cb, ms)\<close> queues a timeout under a fresh id; \<open>clearTimeout\<close> drops it.\<close>

definition setTimeout :: "timer_callback \<Rightarrow> nat \<Rightarrow> 'n dashboard \<Rightarrow> 'n dashboard" where
  "setTimeout cb ms s =
     s\<lparr>timers := timers s @ [\<lparr>timer_id = nextTimerId s, delay_ms = ms, callback = cb\<rparr>],
       nextTimerId := nextTimerId s + 1\<rparr>"

definition clearTimeout :: "nat \<Rightarrow> 'n dashboard \<Rightarrow> 'n dashboard" where
  "clearTimeout t s = s\<lparr>timers := filter (\<lambda>x. timer_id x \<noteq> t) (timers s)\<rparr>"

definition clearPollingTimer :: "'n dashboard \<Rightarrow> 'n dashboard" where
  "clearPollingTimer s =
     (case pollingTimerRef s of
        None \<Rightarrow> s
      | Some t \<Rightarrow> (clearTimeout t s)\<lparr>pollingTimerRef := None\<rparr>)"

definition scheduleReconnectPoll :: "'n dashboard \<Rightarrow> 'n dashboard" where
  "scheduleReconnectPoll s =
     (let s1 = (clearPollingTimer s)\<lparr>connectionStatus := Polling\<rparr>
      in (setTimeout ReconnectPoll 60000 s1)\<lparr>pollingTimerRef := Some (nextTimerId s1)\<rparr>)"

text \<open>The callback \<open>scheduleReconnectPoll\<close> hands to \<open>setTimeout\<close>.\<close>

definition reconnectPollFired :: "'n dashboard \<Rightarrow> 'n dashboard" where
  "reconnectPollFired s =
     s\<lparr>pollingTimerRef := None,
       connectionStatus :=
         (if connectionStatus s = Polling \<or> connectionStatus s = Error
             \<or> connectionStatus s = Closed
          then Connecting else connectionStatus s)\<rparr>"

section \<open>WebSocket lifecycle\<close>

definition onopen :: "nat \<Rightarrow> 'n dashboard \<Rightarrow> 'n dashboard" where
  "onopen ws s =
     (if wsRef s \<noteq> Some ws then s
      else (clearPollingTimer s)
        \<lparr>connectionStatus := Open, lastError := None, isInitialLoading := True,
         snapshot := None, events := [],
         shutdownState :=
           \<lparr>seenShutdownNotice = False, lastReason = JNull, lastSeenAt = None\<rparr>\<rparr>)"

text \<open>\<open>xs.slice(-n)\<close> for a positive \<open>n\<close>: the last \<open>n\<close> elements, all of them when there are fewer.\<close>

definition slice_last :: "nat \<Rightarrow> 'a list \<Rightarrow> 'a list" where
  "slice_last n xs = drop (length xs - n) xs"

text \<open>
  \<open>data.kind\<close> and \<open>data.kind === "snapshot" ? "snapshot" : data.event.type\<close>, read off the
  object \<open>normalizeMessage\<close> returned: \<open>data.event.type\<close> throws when \<open>data\<close> is a wire
  object without an \<open>event\<close>.
\<close>

definition kind_and_eventType ::
    "'n NormalizedObserveMessage \<Rightarrow> js_error + 'n json \<times> 'n json" where
  "kind_and_eventType data =
     and_then (js_get (json_of_message data) ''kind'') (\<lambda>k.
       if k = JStr ''snapshot'' then Inr (k, JStr ''snapshot'')
       else
         and_then (js_get (json_of_message data) ''event'') (\<lambda>e.
         and_then (js_get e ''type'') (\<lambda>t. Inr (k, t))))"

text \<open>The test of the heartbeat updater on one neuron of the table.\<close>

definition heartbeat_matches :: "'n number_ops \<Rightarrow> string \<Rightarrow> 'n NormalizedNeuron \<Rightarrow> bool" where
  "heartbeat_matches ops neuronId n =
     (truthy ops (descriptor n) \<and>
      (js_get (descriptor n) ''node_id'' = Inr (JStr neuronId) \<or>
       js_get (descriptor n) ''label'' = Inr (JStr neuronId)))"

text \<open>
  The \<open>neuron_heartbeat\<close> branch: the \<open>setSnapshot\<close> updater, then the pulse id of the
  neuron and the timeout that clears it. \<open>heartbeatAnimIds\<close> is a plain object, so
  \<open>prev[neuronKey]\<close> reads its own property and, when there is none, what
  \<open>Object.prototype\<close> defines under that name (\<open>constructor\<close>, \<open>toString\<close>, ...): a
  function or an object, to which \<open>+ 1\<close> appends the character \<open>1\<close>, as it does to a text
  stored earlier. The map holds the own properties.
\<close>

definition heartbeat :: "'n number_ops \<Rightarrow> string \<Rightarrow> string \<Rightarrow> 'n dashboard \<Rightarrow> 'n dashboard" where
  "heartbeat ops neuronId nowIso s =
     (let s1 = s\<lparr>snapshot :=
                  (case snapshot s of
                     None \<Rightarrow> None
                   | Some neurons \<Rightarrow>
                       Some (map (\<lambda>n. if heartbeat_matches ops neuronId n
                                       then n\<lparr>last_heartbeat_at := JStr nowIso\<rparr> else n)
                               neurons))\<rparr>;
          nextId =
            (case heartbeatAnimIds s1 neuronId of
               Some (Count i) \<Rightarrow> Count (i + 1)
             | Some (Text t) \<Rightarrow> Text (t @ ''1'')
             | None \<Rightarrow>
                 (case inherited_text ops neuronId of
                    None \<Rightarrow> Count (0 + 1)
                  | Some t \<Rightarrow> Text (t @ ''1'')))
      in setTimeout (PulseExpiry neuronId nextId) 4000
           (s1\<lparr>heartbeatAnimIds := (heartbeatAnimIds s1)(neuronId \<mapsto> nextId)\<rparr>))"

text \<open>
  The callback of that timeout. Once the own property is gone, \<open>current[neuronKey]\<close> is
  \<open>undefined\<close> or an inherited function or object, none of which is \<open>===\<close> a pulse id.
\<close>

definition pulseExpired :: "string \<Rightarrow> pulse \<Rightarrow> 'n dashboard \<Rightarrow> 'n dashboard" where
  "pulseExpired neuronKey nextId s =
     (if heartbeatAnimIds s neuronKey \<noteq> Some nextId then s
      else s\<lparr>heartbeatAnimIds := (heartbeatAnimIds s)(neuronKey := None)\<rparr>)"

text \<open>
  \<open>ws.onmessage\<close> of the socket \<open>ws\<close>. \<open>parsed\<close> is what \<open>JSON.parse(ev.data)\<close> gives
  (\<open>None\<close>: it threw a \<open>SyntaxError\<close>), \<open>clockText\<close> what \<open>formatTime(new Date())\<close> gives and
  \<open>nowIso\<close> what \<open>new Date().toISOString()\<close> gives while the message is handled.
  After logging, the source tests \<open>data.kind === "snapshot"\<close> and then \<open>e.type\<close>; on a wire
  object handed back as it is all three tests are false (\<open>unnormalized_is_no_known_message\<close>
  below), which is the last case here.
\<close>

definition onmessage ::
    "'n number_ops \<Rightarrow> nat \<Rightarrow> 'n json option \<Rightarrow> string \<Rightarrow> string \<Rightarrow> 'n dashboard \<Rightarrow> 'n dashboard" where
  "onmessage ops ws parsed clockText nowIso s =
     (if wsRef s \<noteq> Some ws then s
      else
        case parsed of
          None \<Rightarrow> s\<lparr>lastError := Some (FailedToParse SyntaxError)\<rparr>
        | Some wire \<Rightarrow>
            (case normalizeMessage ops wire of
               Inl err \<Rightarrow> s\<lparr>lastError := Some (FailedToParse err)\<rparr>
             | Inr data \<Rightarrow>
                 let s1 = s\<lparr>nextEventIdRef := nextEventIdRef s + 1\<rparr> in
                 (case kind_and_eventType data of
                    Inl err \<Rightarrow> s1\<lparr>lastError := Some (FailedToParse err)\<rparr>
                  | Inr (k, t) \<Rightarrow>
                      let item = \<lparr>item_id = nextEventIdRef s, receivedAt = clockText,
                                  kind = k, eventType = t, payload = data\<rparr>;
                          s2 = s1\<lparr>events := slice_last 300 (events s1 @ [item])\<rparr>
                      in (case data of
                            Snapshot neurons \<Rightarrow>
                              s2\<lparr>snapshot := Some neurons, isInitialLoading := False\<rparr>
                          | Event (NeuronHeartbeat neuronId metrics) \<Rightarrow>
                              heartbeat ops neuronId nowIso s2
                          | Event (CortexShutdownNotice reason) \<Rightarrow>
                              scheduleReconnectPoll
                                (s2\<lparr>shutdownState :=
                                      \<lparr>seenShutdownNotice = True, lastReason = reason,
                                       lastSeenAt = Some nowIso\<rparr>\<rparr>)
                          | _ \<Rightarrow> s2))))"

definition onerror :: "nat \<Rightarrow> 'n dashboard \<Rightarrow> 'n dashboard" where
  "onerror ws s =
     (if wsRef s \<noteq> Some ws then s
      else s\<lparr>connectionStatus := Error, isInitialLoading := False,
             lastError := Some WebSocketErrorText\<rparr>)"

definition onclose :: "nat \<Rightarrow> 'n dashboard \<Rightarrow> 'n dashboard" where
  "onclose ws s =
     (if wsRef s \<noteq> Some ws then s
      else scheduleReconnectPoll
             (s\<lparr>connectionStatus :=
                   (if connectionStatus s = Polling then Polling else Closed),
                isInitialLoading := False\<rparr>))"

text \<open>
  \<open>connect\<close>, called from the effect (so its \<open>cancelled\<close> flag is still false).
  \<open>endpoint_ok\<close> tells whether \<open>new WebSocket(endpoint)\<close> constructs a socket for the
  configured address or throws.
\<close>

definition connect :: "bool \<Rightarrow> 'n dashboard \<Rightarrow> 'n dashboard" where
  "connect endpoint_ok s =
     (if (case wsRef s of
            None \<Rightarrow> False
          | Some existing \<Rightarrow> existing < length (sockets s) \<and> sockets s ! existing \<noteq> CLOSED)
      then s
      else
        let s1 = (if connectionStatus s = Polling then s\<lparr>lastError := None\<rparr> else s)
                   \<lparr>connectionStatus := Connecting\<rparr>
        in if endpoint_ok
           then s1\<lparr>sockets := sockets s1 @ [CONNECTING], wsRef := Some (length (sockets s1))\<rparr>
           else scheduleReconnectPoll
                  (s1\<lparr>connectionStatus := Error, lastError := Some (FailedToOpen SyntaxError)\<rparr>))"

text \<open>The effect that depends on \<open>connectionStatus\<close>: its body and the cleanup it returns.\<close>

definition useEffect_body :: "bool \<Rightarrow> 'n dashboard \<Rightarrow> 'n dashboard" where
  "useEffect_body endpoint_ok s =
     (if connectionStatus s = Connecting \<and> wsRef s = None
      then connect endpoint_ok (s\<lparr>isInitialLoading := True\<rparr>)
      else s)"

definition useEffect_cleanup :: "'n dashboard \<Rightarrow> 'n dashboard" where
  "useEffect_cleanup s = clearPollingTimer s"

text \<open>
  React after a callback: when \<open>connectionStatus\<close> differs from the value of the last
  render, the cleanup of the last effect runs and then the effect's body; the body may set
  the status once more (a constructor that throws), which renders again; after that the
  status is settled (\<open>rerender_settles\<close> below).
\<close>

definition rerender :: "bool \<Rightarrow> 'n dashboard \<Rightarrow> 'n dashboard \<Rightarrow> 'n dashboard" where
  "rerender endpoint_ok before s =
     (if connectionStatus s = connectionStatus before then s
      else
        let s1 = useEffect_body endpoint_ok (useEffect_cleanup s)
        in if connectionStatus s1 = connectionStatus s then s1
           else useEffect_body endpoint_ok (useEffect_cleanup s1))"

text \<open>What the browser delivers to the component.\<close>

datatype 'n input =
    Mount
  | SocketOpened nat
  | SocketMessage nat "'n json option" string string
  | SocketError nat
  | SocketClosed nat
  | TimerFired nat

definition fire :: "timer_callback \<Rightarrow> 'n dashboard \<Rightarrow> 'n dashboard" where
  "fire cb s =
     (case cb of
        ReconnectPoll \<Rightarrow> reconnectPollFired s
      | PulseExpiry neuronKey nextId \<Rightarrow> pulseExpired neuronKey nextId s)"

definition step :: "'n number_ops \<Rightarrow> bool \<Rightarrow> 'n input \<Rightarrow> 'n dashboard \<Rightarrow> 'n dashboard" where
  "step ops endpoint_ok i s =
     (case i of
        Mount \<Rightarrow> rerender endpoint_ok s (useEffect_body endpoint_ok s)
      | SocketOpened ws \<Rightarrow>
          rerender endpoint_ok s (onopen ws (s\<lparr>sockets := (sockets s)[ws := OPEN]\<rparr>))
      | SocketMessage ws parsed clockText nowIso \<Rightarrow>
          rerender endpoint_ok s (onmessage ops ws parsed clockText nowIso s)
      | SocketError ws \<Rightarrow> rerender endpoint_ok s (onerror ws s)
      | SocketClosed ws \<Rightarrow>
          rerender endpoint_ok s (onclose ws (s\<lparr>sockets := (sockets s)[ws := CLOSED]\<rparr>))
      | TimerFired t \<Rightarrow>
          (case find (\<lambda>x. timer_id x = t) (timers s) of
             None \<Rightarrow> s
           | Some tm \<Rightarrow> rerender endpoint_ok s (fire (callback tm) (clearTimeout t s))))"

definition run :: "'n number_ops \<Rightarrow> bool \<Rightarrow> 'n input list \<Rightarrow> 'n dashboard \<Rightarrow> 'n dashboard" where
  "run ops endpoint_ok inputs s = foldl (\<lambda>s i. step ops endpoint_ok i s) s inputs"

section \<open>Shapes and sample values the statements below name\<close>

text \<open>
  The two command shapes the specification names: the explicit-kind shape, an object whose
  \<open>kind\<close> is one of the three kinds, and the legacy shape, an object whose sole key is the
  name of the variant.
\<close>

definition explicit_kind_shape :: "'n json \<Rightarrow> bool" where
  "explicit_kind_shape wire =
     (case wire of
        JObj kvs \<Rightarrow>
          map_of kvs ''kind'' = Some (JStr ''upsert_model_config'') \<or>
          map_of kvs ''kind'' = Some (JStr ''load_model'') \<or>
          map_of kvs ''kind'' = Some (JStr ''unload_model'')
      | _ \<Rightarrow> False)"

definition legacy_shape :: "'n json \<Rightarrow> bool" where
  "legacy_shape wire =
     (case wire of
        JObj [(k, v)] \<Rightarrow> k = ''UpsertModelConfig'' \<or> k = ''LoadModel'' \<or> k = ''UnloadModel''
      | _ \<Rightarrow> False)"

text \<open>An array nested \<open>n\<close> levels below its top: \<open>[[...[]...]]\<close>.\<close>

fun nested :: "nat \<Rightarrow> 'n json" where
  "nested 0 = JArr []"
| "nested (Suc n) = JArr [nested n]"

text \<open>
  A sample engine, with numbers as naturals: it enters 5000 levels in \<open>JSON.stringify\<close> and in
  \<open>String\<close>, and prints the functions of \<open>Object.prototype\<close> as native code.
\<close>

definition native_function_names :: "string list" where
  "native_function_names =
     [''__defineGetter__'', ''__defineSetter__'', ''hasOwnProperty'', ''__lookupGetter__'',
      ''__lookupSetter__'', ''isPrototypeOf'', ''propertyIsEnumerable'', ''toString'',
      ''valueOf'', ''toLocaleString'']"

definition sample_inherited_text :: "string \<Rightarrow> string option" where
  "sample_inherited_text k =
     (if k = ''__proto__'' then Some ''[object Object]''
      else if k = ''constructor'' then Some ''function Object() { [native code] }''
      else if k \<in> set native_function_names
        then Some (''function '' @ k @ ''() { [native code] }'')
      else None)"

definition nat_number_ops :: "nat number_ops" where
  "nat_number_ops =
     \<lparr>num_to_string = dec, num_is_finite = (\<lambda>n. True), num_is_falsy = (\<lambda>n. n = 0),
      stringify_depth = 5000, join_depth = 5000, inherited_text = sample_inherited_text\<rparr>"

text \<open>
  A command with a legacy key beside another member, and one whose model id is an array
  nested deeper than the sample engine's \<open>JSON.stringify\<close> can enter.
\<close>

definition two_key_command :: "nat json" where
  "two_key_command =
     JObj [(''LoadModel'', JStr ''gpt-small''), (''config'', JObj [(''id'', JStr ''gpt-small'')])]"

definition deep_command :: "nat json" where
  "deep_command = JObj [(''LoadModel'', nested 5000)]"

definition sent_frame :: "nat json" where
  "sent_frame =
     JObj [(''kind'', JStr ''event''),
           (''event'', JObj [(''type'', JStr ''provisioning_sent''), (''neuron_id'', JNum 7),
                            (''cmd'', JObj [(''LoadModel'', JArr [JStr ''gpt-small''])])])]"

text \<open>
  The message a frame is processed as: \<open>None\<close> for a frame that \<open>onmessage\<close> reports as a
  parse failure (the \<open>catch\<close> branch), otherwise what \<open>normalizeMessage\<close> made of it.
  \<open>processed\<close> is the normalised stream of a sequence of frames, each with the two clock
  readings taken while it is handled, and \<open>deliver\<close> hands the frames to the socket \<open>ws\<close>.
\<close>

definition accepted :: "'n number_ops \<Rightarrow> 'n json option \<Rightarrow> 'n NormalizedObserveMessage option" where
  "accepted ops parsed =
     (case parsed of
        None \<Rightarrow> None
      | Some wire \<Rightarrow>
          (case normalizeMessage ops wire of
             Inl err \<Rightarrow> None
           | Inr data \<Rightarrow>
               (case kind_and_eventType data of Inl err \<Rightarrow> None | Inr kt \<Rightarrow> Some data)))"

definition processed ::
    "'n number_ops \<Rightarrow> ('n json option \<times> string \<times> string) list \<Rightarrow> 'n NormalizedObserveMessage list" where
  "processed ops frames = List.map_filter (\<lambda>(parsed, clockText, nowIso). accepted ops parsed) frames"

definition deliver :: "nat \<Rightarrow> ('n json option \<times> string \<times> string) list \<Rightarrow> 'n input list" where
  "deliver ws frames = map (\<lambda>(parsed, clockText, nowIso). SocketMessage ws parsed clockText nowIso) frames"

text \<open>Sample frames, as \<open>JSON.parse\<close> decodes them, and the table the sample snapshot carries.\<close>

definition snapshot_frame :: "nat json" where
  "snapshot_frame =
     JObj [(''kind'', JStr ''snapshot''),
           (''snapshot'',
              JObj [(''neurons'',
                JArr [JObj [(''descriptor'',
                              JObj [(''node_id'', JStr ''n1''), (''label'', JStr ''alpha''),
                                    (''metadata'', JObj [])]),
                            (''last_heartbeat_at'', JNull), (''health'', JStr ''healthy''),
                            (''offline'', JBool False),
                            (''models'',
                               JArr [JObj [(''model_id'', JStr ''gpt-small''),
                                           (''last_cmd_kind'', JStr ''load_model''),
                                           (''last_response'', JNull),
                                           (''effective_status'', JStr ''loading'')]])],
                      JObj [(''node_id'', JStr ''n2''), (''label'', JNull),
                            (''metadata'', JObj [])]])])]"

definition sample_neurons :: "nat NormalizedNeuron list" where
  "sample_neurons =
     [\<lparr>descriptor = JObj [(''node_id'', JStr ''n1''), (''label'', JStr ''alpha''),
                          (''metadata'', JObj [])],
       last_heartbeat_at = JNull, health = JStr ''healthy'', offline = False,
       models = [\<lparr>model_id = JStr ''gpt-small'', last_cmd_kind = JStr ''load_model'',
                  last_response = JNull, effective_status = JStr ''loading''\<rparr>]\<rparr>,
      \<lparr>descriptor = JObj [(''node_id'', JStr ''n2''), (''label'', JStr ''n2''),
                          (''metadata'', JObj [])],
       last_heartbeat_at = JNull, health = JStr ''unknown'', offline = False,
       models = []\<rparr>]"

definition heartbeat_frame :: "nat json" where
  "heartbeat_frame =
     JObj [(''kind'', JStr ''event''),
           (''event'', JObj [(''type'', JStr ''neuron_heartbeat''),
                            (''neuron_id'', JStr ''alpha''), (''metrics'', JObj [])])]"


definition shutdown_frame :: "nat json" where
  "shutdown_frame =
     JObj [(''kind'', JStr ''event''),
           (''event'', JObj [(''type'', JStr ''cortex_shutdown_notice''),
                            (''reason'', JStr ''maintenance'')])]"


text \<open>The component after mounting and after its socket has opened.\<close>

definition opened :: "nat dashboard" where
  "opened = run nat_number_ops True [Mount, SocketOpened 0] initial"

text \<open>A first epoch: mount, open, a snapshot and a heartbeat.\<close>

definition first_epoch :: "nat input list" where
  "first_epoch =
     [Mount, SocketOpened 0,
      SocketMessage 0 (Some snapshot_frame) ''12:00:00'' ''2026-01-01T12:00:00.000Z'',
      SocketMessage 0 (Some heartbeat_frame) ''12:00:05'' ''2026-01-01T12:00:05.000Z'']"

text \<open>The component with the sample table: open, and the sample snapshot received.\<close>

definition with_table :: "nat dashboard" where
  "with_table =
     run nat_number_ops True
       [SocketMessage 0 (Some snapshot_frame) ''12:00:00'' ''2026-01-01T12:00:00.000Z''] opened"

text \<open>
  An outage: the socket opens, a shutdown notice arrives, the socket closes, and the retry
  timeout that \<open>onclose\<close> scheduled (the second the component ever set) fires. And a plain
  close of the open socket.
\<close>

definition outage :: "nat input list" where
  "outage =
     [Mount, SocketOpened 0,
      SocketMessage 0 (Some shutdown_frame) ''12:00:00'' ''2026-01-01T12:00:00.000Z'',
      SocketClosed 0, TimerFired 1]"

definition plain_close :: "nat input list" where
  "plain_close = [Mount, SocketOpened 0, SocketClosed 0]"

section \<open>Facts about the normaliser\<close>

lemma and_then_simps [simp]:
  "and_then (Inr x) f = f x"
  "and_then (Inl e) f = Inl e"
  by (simp_all add: and_then_def)

lemma and_then_eq_Inr:
  "and_then m f = Inr y \<longleftrightarrow> (\<exists>x. m = Inr x \<and> f x = Inr y)"
  by (cases m) simp_all

lemma and_then_eq_Inl:
  "and_then m f = Inl e \<longleftrightarrow> m = Inl e \<or> (\<exists>x. m = Inr x \<and> f x = Inl e)"
  by (cases m) simp_all

lemma traverse_Inl: "traverse f xs = Inl e \<Longrightarrow> \<exists>x \<in> set xs. f x = Inl e"
  by (induction xs) (auto simp: and_then_eq_Inl)

lemma traverse_total:
  "(\<And>x. x \<in> set xs \<Longrightarrow> \<exists>y. f x = Inr y) \<Longrightarrow> \<exists>ys. traverse f xs = Inr ys"
proof (induction xs)
  case Nil
  then show ?case by simp
next
  case (Cons x xs)
  then obtain y ys where "f x = Inr y" "traverse f xs = Inr ys"
    by (metis list.set_intros(1,2))
  then show ?case by simp
qed

lemma foldr_max_ge: "x \<in> set xs \<Longrightarrow> f x \<le> foldr max (map f xs) (0::nat)"
  by (induction xs) (auto simp: max_def)

lemma json_text_error: "json_text ops d v = Inl e \<Longrightarrow> e = RangeError"
proof (induction d arbitrary: v e)
  case 0
  then show ?case by (cases v) auto
next
  case (Suc d)
  show ?case
  proof (cases v)
    case (JArr xs)
    with Suc.prems show ?thesis
      by (auto simp: and_then_eq_Inl dest!: traverse_Inl dest: Suc.IH)
  next
    case (JObj kvs)
    with Suc.prems show ?thesis
      by (auto simp: and_then_eq_Inl dest!: traverse_Inl dest: Suc.IH)
  qed (use Suc.prems in auto)
qed

lemma json_text_shallow: "nesting v \<le> d \<Longrightarrow> \<exists>t. json_text ops d v = Inr t"
proof (induction d arbitrary: v)
  case 0
  then show ?case by (cases v) auto
next
  case (Suc d)
  show ?case
  proof (cases v)
    case (JArr xs)
    have "\<exists>t. json_text ops d x = Inr t" if "x \<in> set xs" for x
    proof (rule Suc.IH)
      from foldr_max_ge [OF that, of nesting] Suc.prems JArr show "nesting x \<le> d" by simp
    qed
    from traverse_total [of xs "json_text ops d", OF this] JArr show ?thesis by auto
  next
    case (JObj kvs)
    have "\<exists>y. (case p of (k, v) \<Rightarrow> and_then (json_text ops d v) (\<lambda>t. Inr (quote k @ '':'' @ t)))
               = Inr y"
      if "p \<in> set (filter (\<lambda>(k, v). v \<noteq> JUndefined) kvs)" for p
    proof -
      obtain k x where p: "p = (k, x)" by (cases p) auto
      with that have "(k, x) \<in> set kvs" by simp
      from foldr_max_ge [OF this, of "\<lambda>(k, v). nesting v"] Suc.prems JObj
      have "nesting x \<le> d" by simp
      from Suc.IH [OF this] show ?thesis by (auto simp: p)
    qed
    from traverse_total [of "filter (\<lambda>(k, v). v \<noteq> JUndefined) kvs"
        "\<lambda>(k, v). and_then (json_text ops d v) (\<lambda>t. Inr (quote k @ '':'' @ t))", OF this] JObj
    show ?thesis by auto
  qed auto
qed

lemma JSON_stringify_range:
  "JSON_stringify ops v = Inr r \<Longrightarrow> typeof_string r \<or> r = JUndefined"
  by (auto simp: JSON_stringify_def and_then_eq_Inr split: if_splits)

lemma JSON_stringify_error: "JSON_stringify ops v = Inl e \<Longrightarrow> e = RangeError"
  by (auto simp: JSON_stringify_def and_then_eq_Inl split: if_splits dest: json_text_error)

lemma JSON_stringify_shallow:
  "nesting v \<le> stringify_depth ops \<Longrightarrow> \<exists>r. JSON_stringify ops v = Inr r"
  using json_text_shallow [of v "stringify_depth ops" ops]
  by (auto simp: JSON_stringify_def)

lemma normalizeModelId_range:
  "normalizeModelId ops x = Inr v \<Longrightarrow> typeof_string v \<or> v = JUndefined"
  by (cases x)
     (auto simp: normalizeModelId_def and_then_eq_Inr split: if_splits
           dest: JSON_stringify_range)

lemma normalizeModelId_error: "normalizeModelId ops x = Inl e \<Longrightarrow> e = RangeError"
  by (cases x)
     (auto simp: normalizeModelId_def and_then_eq_Inl split: if_splits
           dest: JSON_stringify_error)

lemma normalizeModelId_shallow:
  "nesting x \<le> stringify_depth ops \<Longrightarrow> \<exists>v. normalizeModelId ops x = Inr v"
  using JSON_stringify_shallow [of x ops]
  by (cases x) (auto simp: normalizeModelId_def)

lemma normalizeModelId_fixed:
  "typeof_string v \<or> v = JUndefined \<Longrightarrow> normalizeModelId ops v = Inr v"
  by (cases v) (auto simp: normalizeModelId_def JSON_stringify_def)

lemma model_id_of_eq: "model_id_of ops x = normalizeModelId ops x"
  by (cases x) (simp_all add: model_id_of_def normalizeModelId_def)

lemma model_id_of_range:
  "model_id_of ops x = Inr v \<Longrightarrow> typeof_string v \<or> v = JUndefined"
  by (simp add: model_id_of_eq normalizeModelId_range)

lemma model_id_of_fixed:
  "typeof_string v \<or> v = JUndefined \<Longrightarrow> model_id_of ops v = Inr v"
  by (simp add: model_id_of_eq normalizeModelId_fixed)

lemma js_String_primitive [simp]:
  "js_String ops (JStr s) = Inr s"
  "js_String ops (JNum n) = Inr (num_to_string ops n)"
  by (simp_all add: js_String_def)

lemma js_in_object: "truthy ops w \<Longrightarrow> typeof_object w \<Longrightarrow> \<exists>b. js_in k w = Inr b"
  by (cases w) auto

lemma js_get_object: "truthy ops w \<Longrightarrow> \<exists>v. js_get w k = Inr v"
  by (cases w) auto

text \<open>
  \<open>normalizeProvisioningCommand\<close> by the shape of its argument: anything but an object with
  members falls to the last line, and an object goes by its \<open>kind\<close> and then by the first
  legacy key it has, whatever else it holds.
\<close>

lemma cmd_not_object:
  "\<forall>kvs. wire \<noteq> JObj kvs \<Longrightarrow>
   normalizeProvisioningCommand ops wire = Inr (UpsertModelConfig wire)"
  by (cases wire) (simp_all add: normalizeProvisioningCommand_def array_index_def is_digit_def)

lemma js_in_JObj: "js_in k (JObj kvs) = Inr (map_of kvs k \<noteq> None)"
  by (simp add: map_of_eq_None_iff)

lemma cmd_object:
  "normalizeProvisioningCommand ops (JObj kvs) =
     (if map_of kvs ''kind'' = Some (JStr ''upsert_model_config'') then
        Inr (UpsertModelConfig (case map_of kvs ''config'' of None \<Rightarrow> JUndefined | Some c \<Rightarrow> c))
      else if map_of kvs ''kind'' = Some (JStr ''load_model'') then
        and_then (normalizeModelId ops (case map_of kvs ''model_id'' of None \<Rightarrow> JUndefined | Some x \<Rightarrow> x))
          (\<lambda>m. Inr (LoadModel m))
      else if map_of kvs ''kind'' = Some (JStr ''unload_model'') then
        and_then (normalizeModelId ops (case map_of kvs ''model_id'' of None \<Rightarrow> JUndefined | Some x \<Rightarrow> x))
          (\<lambda>m. Inr (UnloadModel m))
      else
        (case map_of kvs ''UpsertModelConfig'' of
           Some c \<Rightarrow> Inr (UpsertModelConfig c)
         | None \<Rightarrow>
             (case map_of kvs ''LoadModel'' of
                Some x \<Rightarrow> and_then (normalizeModelId ops x) (\<lambda>m. Inr (LoadModel m))
              | None \<Rightarrow>
                  (case map_of kvs ''UnloadModel'' of
                     Some x \<Rightarrow> and_then (normalizeModelId ops x) (\<lambda>m. Inr (UnloadModel m))
                   | None \<Rightarrow> Inr (UpsertModelConfig (JObj kvs))))))"
proof -
  have legacy:
    "and_then (js_in ''UpsertModelConfig'' (JObj kvs)) (\<lambda>has_upsert.
       if has_upsert then
         and_then (js_get (JObj kvs) ''UpsertModelConfig'') (\<lambda>c. Inr (UpsertModelConfig c))
       else
         and_then (js_in ''LoadModel'' (JObj kvs)) (\<lambda>has_load.
           if has_load then
             and_then (js_get (JObj kvs) ''LoadModel'') (\<lambda>mid.
               and_then (model_id_of ops mid) (\<lambda>m. Inr (LoadModel m)))
           else
             and_then (js_in ''UnloadModel'' (JObj kvs)) (\<lambda>has_unload.
               if has_unload then
                 and_then (js_get (JObj kvs) ''UnloadModel'') (\<lambda>mid.
                   and_then (model_id_of ops mid) (\<lambda>m. Inr (UnloadModel m)))
               else Inr (UpsertModelConfig (JObj kvs)))))
     = (case map_of kvs ''UpsertModelConfig'' of
           Some c \<Rightarrow> Inr (UpsertModelConfig c)
         | None \<Rightarrow>
             (case map_of kvs ''LoadModel'' of
                Some x \<Rightarrow> and_then (normalizeModelId ops x) (\<lambda>m. Inr (LoadModel m))
              | None \<Rightarrow>
                  (case map_of kvs ''UnloadModel'' of
                     Some x \<Rightarrow> and_then (normalizeModelId ops x) (\<lambda>m. Inr (UnloadModel m))
                   | None \<Rightarrow> Inr (UpsertModelConfig (JObj kvs)))))"
    unfolding js_in_JObj by (simp add: model_id_of_eq split: option.splits)
  show ?thesis
  proof (cases "map_of kvs ''kind''")
    case None
    then show ?thesis
      unfolding normalizeProvisioningCommand_def js_in_JObj using legacy [unfolded js_in_JObj]
      by simp
  next
    case (Some k)
    consider (u) "k = JStr ''upsert_model_config''" | (l) "k = JStr ''load_model''"
      | (n) "k = JStr ''unload_model''"
      | (o) "k \<noteq> JStr ''upsert_model_config''" "k \<noteq> JStr ''load_model''"
          "k \<noteq> JStr ''unload_model''"
      by blast
    then show ?thesis
    proof cases
      case u
      with Some show ?thesis
        unfolding normalizeProvisioningCommand_def js_in_JObj by simp
    next
      case l
      with Some show ?thesis
        unfolding normalizeProvisioningCommand_def js_in_JObj
        by (cases "normalizeModelId ops (case map_of kvs ''model_id'' of None \<Rightarrow> JUndefined | Some x \<Rightarrow> x)")
           (simp_all add: model_id_of_eq)
    next
      case n
      with Some show ?thesis
        unfolding normalizeProvisioningCommand_def js_in_JObj
        by (cases "normalizeModelId ops (case map_of kvs ''model_id'' of None \<Rightarrow> JUndefined | Some x \<Rightarrow> x)")
           (simp_all add: model_id_of_eq)
    next
      case o
      with Some show ?thesis
        unfolding normalizeProvisioningCommand_def js_in_JObj using legacy [unfolded js_in_JObj]
        by simp
    qed
  qed
qed


lemma cmd_range:
  assumes "normalizeProvisioningCommand ops wire = Inr cmd"
  shows "case cmd of UpsertModelConfig c \<Rightarrow> True
         | LoadModel m \<Rightarrow> typeof_string m \<or> m = JUndefined
         | UnloadModel m \<Rightarrow> typeof_string m \<or> m = JUndefined"
proof (cases "\<exists>kvs. wire = JObj kvs")
  case False
  with assms show ?thesis by (auto simp: cmd_not_object)
next
  case True
  then obtain kvs where "wire = JObj kvs" by blast
  with assms show ?thesis
    by (auto simp: cmd_object and_then_eq_Inr split: if_splits option.splits
             dest: normalizeModelId_range)
qed

lemma cmd_error:
  assumes "normalizeProvisioningCommand ops wire = Inl e"
  shows "e = RangeError"
proof (cases "\<exists>kvs. wire = JObj kvs")
  case False
  with assms show ?thesis by (auto simp: cmd_not_object)
next
  case True
  then obtain kvs where "wire = JObj kvs" by blast
  with assms show ?thesis
    by (auto simp: cmd_object and_then_eq_Inl split: if_splits option.splits
             dest: normalizeModelId_error)
qed

lemma map_of_nesting: "map_of kvs k = Some x \<Longrightarrow> nesting x < nesting (JObj kvs)"
proof -
  assume "map_of kvs k = Some x"
  then have "(k, x) \<in> set kvs" by (rule map_of_SomeD)
  from foldr_max_ge [OF this, of "\<lambda>(k, v). nesting v"] show ?thesis by simp
qed

lemma cmd_shallow:
  assumes "nesting wire \<le> stringify_depth ops"
  shows "\<exists>cmd. normalizeProvisioningCommand ops wire = Inr cmd"
proof (cases "\<exists>kvs. wire = JObj kvs")
  case False
  then show ?thesis by (auto simp: cmd_not_object)
next
  case True
  then obtain kvs where w: "wire = JObj kvs" by blast
  have member: "\<exists>v. normalizeModelId ops x = Inr v" if "map_of kvs k = Some x" for k x
    using map_of_nesting [OF that] assms w by (intro normalizeModelId_shallow) simp
  have absent: "\<exists>v. normalizeModelId ops JUndefined = Inr v"
    by (simp add: normalizeModelId_fixed)
  have model_id: "\<exists>v. normalizeModelId ops
                     (case map_of kvs ''model_id'' of None \<Rightarrow> JUndefined | Some x \<Rightarrow> x) = Inr v"
    using member absent by (cases "map_of kvs ''model_id''") auto
  show ?thesis
    using member model_id unfolding w cmd_object
    by (fastforce split: option.splits)
qed

lemma cmd_idem:
  assumes "normalizeProvisioningCommand ops wire = Inr cmd"
  shows "normalizeProvisioningCommand ops (json_of_command cmd) = Inr cmd"
  using cmd_range [OF assms]
  by (cases cmd) (auto simp: cmd_object normalizeModelId_fixed)

lemma nullish_or_idem [simp]:
  "d \<noteq> JUndefined \<Longrightarrow> nullish_or (nullish_or v d) d = nullish_or v d"
  by (simp add: nullish_or_def)

lemma nullish_or_defined: "d \<noteq> JUndefined \<Longrightarrow> nullish_or v d \<noteq> JUndefined"
  by (simp add: nullish_or_def)

lemma traverse_Inr_iff:
  "traverse f xs = Inr ys \<longleftrightarrow>
     length ys = length xs \<and> (\<forall>i < length xs. f (xs ! i) = Inr (ys ! i))"
proof (induction xs arbitrary: ys)
  case Nil
  then show ?case by auto
next
  case (Cons x xs)
  show ?case
  proof (cases ys)
    case Nil
    then show ?thesis by (auto simp: and_then_eq_Inr)
  next
    case (Cons y ys')
    then show ?thesis
      using Cons.IH [of ys']
      by (auto simp: and_then_eq_Inr nth_Cons split: nat.splits)
  qed
qed

lemma status_idem:
  assumes "normalizeModelStatus ops m = Inr r"
  shows "normalizeModelStatus ops (json_of_status r) = Inr r"
proof -
  from assms obtain mid nid k rr e where
    nid: "normalizeModelId ops mid = Inr nid" and
    r: "r = \<lparr>model_id = nid, last_cmd_kind = nullish_or k (JStr ''unknown''),
            last_response = nullish_or rr JNull,
            effective_status = nullish_or e (JStr ''unknown'')\<rparr>"
    by (auto simp: normalizeModelStatus_def and_then_eq_Inr)
  from nid have "typeof_string nid \<or> nid = JUndefined"
    using normalizeModelId_range [of ops mid] by auto
  then have "normalizeModelId ops nid = Inr nid"
    by (rule normalizeModelId_fixed)
  then show ?thesis
    by (simp add: r normalizeModelStatus_def json_of_status_def)
qed

lemma models_idem:
  assumes "normalizeModels ops v = Inr ms"
  shows "normalizeModels ops (JArr (map json_of_status ms)) = Inr ms"
proof (cases "\<exists>xs. v = JArr xs")
  case True
  then obtain xs where v: "v = JArr xs" by blast
  with assms have "traverse (normalizeModelStatus ops) xs = Inr ms" by simp
  then have "length ms = length xs" "\<forall>i < length xs. normalizeModelStatus ops (xs ! i) = Inr (ms ! i)"
    by (simp_all add: traverse_Inr_iff)
  then show ?thesis
    by (auto simp: traverse_Inr_iff intro: status_idem)
next
  case False
  with assms have "ms = []" by (cases v) auto
  then show ?thesis by simp
qed

lemma neuron_idem:
  assumes "normalizeNeuron ops (n, idx) = Inr r"
  shows "normalizeNeuron ops (json_of_neuron r, idx') = Inr r"
proof (cases "truthy ops n \<and> typeof_object n \<and> js_in ''descriptor'' n = Inr True")
  case True
  with assms obtain d hb h off ms nms where
    nms: "normalizeModels ops ms = Inr nms" and
    r: "r = \<lparr>descriptor = d, last_heartbeat_at = nullish_or hb JNull,
              health = nullish_or h (JStr ''unknown''), offline = truthy ops off,
              models = nms\<rparr>"
    by (auto simp: normalizeNeuron_def and_then_eq_Inr)
  from models_idem [OF nms] show ?thesis
    by (simp add: r normalizeNeuron_def json_of_neuron_def)
next
  case False
  then have "(if truthy ops n \<and> typeof_object n then js_in ''descriptor'' n else Inr False) = Inr False"
    using js_in_object [of ops n "''descriptor''"] by auto
  with assms obtain d where
    r: "r = \<lparr>descriptor = d, last_heartbeat_at = JNull, health = JStr ''unknown'',
              offline = False, models = []\<rparr>"
    by (auto simp: normalizeNeuron_def and_then_eq_Inr)
  show ?thesis
    by (simp add: r normalizeNeuron_def json_of_neuron_def nullish_or_def)
qed

lemma snapshot_idem:
  assumes "normalizeSnapshot ops snap = Inr ns"
  shows "normalizeSnapshot ops (json_of_snapshot ns) = Inr ns"
proof -
  from assms obtain xs where
    t: "traverse (normalizeNeuron ops) (zip xs [0 ..< length xs]) = Inr ns"
    by (auto simp: normalizeSnapshot_def and_then_eq_Inr Let_def)
  then have len: "length ns = length xs"
    and each: "\<forall>i < length xs. normalizeNeuron ops (xs ! i, i) = Inr (ns ! i)"
    by (simp_all add: traverse_Inr_iff)
  have "traverse (normalizeNeuron ops)
          (zip (map json_of_neuron ns) [0 ..< length (map json_of_neuron ns)]) = Inr ns"
    using len each by (auto simp: traverse_Inr_iff intro: neuron_idem)
  then show ?thesis
    by (simp add: normalizeSnapshot_def json_of_snapshot_def)
qed

lemma event_idem:
  assumes "normalizeEvent ops e t = Inr (Some ev)"
  shows "js_get (json_of_event ev) ''type'' = Inr (JStr t) \<and>
         normalizeEvent ops (json_of_event ev) t = Inr (Some ev)"
proof -
  consider (registered) "t = ''neuron_registered''" | (removed) "t = ''neuron_removed''"
    | (heartbeat) "t = ''neuron_heartbeat''" | (sent) "t = ''provisioning_sent''"
    | (response) "t = ''provisioning_response''" | (changed) "t = ''model_state_changed''"
    | (notice) "t = ''cortex_shutdown_notice''"
    | (other) "t \<noteq> ''neuron_registered''" "t \<noteq> ''neuron_removed''" "t \<noteq> ''neuron_heartbeat''"
        "t \<noteq> ''provisioning_sent''" "t \<noteq> ''provisioning_response''"
        "t \<noteq> ''model_state_changed''" "t \<noteq> ''cortex_shutdown_notice''"
    by blast
  then show ?thesis
  proof cases
    case registered
    with assms show ?thesis by (auto simp: normalizeEvent_def and_then_eq_Inr)
  next
    case removed
    with assms show ?thesis by (auto simp: normalizeEvent_def and_then_eq_Inr)
  next
    case heartbeat
    with assms show ?thesis by (auto simp: normalizeEvent_def and_then_eq_Inr)
  next
    case sent
    with assms show ?thesis by (auto simp: normalizeEvent_def and_then_eq_Inr cmd_idem)
  next
    case response
    with assms show ?thesis by (auto simp: normalizeEvent_def and_then_eq_Inr)
  next
    case changed
    with assms show ?thesis by (auto simp: normalizeEvent_def and_then_eq_Inr dest: models_idem)
  next
    case notice
    with assms show ?thesis by (auto simp: normalizeEvent_def and_then_eq_Inr)
  next
    case other
    with assms show ?thesis by (simp add: normalizeEvent_def)
  qed
qed


lemma message_idem:
  assumes "normalizeMessage ops m = Inr d"
  shows "normalizeMessage ops (json_of_message d) = Inr d"
proof -
  from assms obtain k where k: "js_get m ''kind'' = Inr k"
    by (auto simp: normalizeMessage_def and_then_eq_Inr)
  show ?thesis
  proof (cases "k = JStr ''snapshot''")
    case True
    with assms k obtain s ns where "normalizeSnapshot ops s = Inr ns" "d = Snapshot ns"
      by (auto simp: normalizeMessage_def and_then_eq_Inr)
    with snapshot_idem [of ops s ns] show ?thesis
      by (simp add: normalizeMessage_def)
  next
    case False
    with assms k obtain e where e: "js_get m ''event'' = Inr e"
      by (auto simp: normalizeMessage_def and_then_eq_Inr)
    show ?thesis
    proof (cases "\<not> truthy ops e \<or> \<not> typeof_object e")
      case True
      with assms k e False have "d = Unnormalized m"
        by (auto simp: normalizeMessage_def)
      with assms show ?thesis by simp
    next
      case obj: False
      with assms k e False obtain t where t: "js_get e ''type'' = Inr t"
        by (auto simp: normalizeMessage_def and_then_eq_Inr)
      show ?thesis
      proof (cases "\<exists>ty. t = JStr ty")
        case True
        then obtain ty where ty: "t = JStr ty" by blast
        with assms k e False obj t obtain r where r: "normalizeEvent ops e ty = Inr r"
          by (auto simp: normalizeMessage_def and_then_eq_Inr)
        show ?thesis
        proof (cases r)
          case None
          with assms k e False obj t ty r have "d = Unnormalized m"
            by (auto simp: normalizeMessage_def)
          with assms show ?thesis by simp
        next
          case (Some ev)
          with assms k e False obj t ty r have d: "d = Event ev"
            by (auto simp: normalizeMessage_def)
          have obj': "truthy ops (json_of_event ev)" "typeof_object (json_of_event ev)"
            by (cases ev; simp)+
          from event_idem [of ops e ty ev] r Some
          have "js_get (json_of_event ev) ''type'' = Inr (JStr ty)"
            and "normalizeEvent ops (json_of_event ev) ty = Inr (Some ev)"
            by simp_all
          with obj' show ?thesis
            by (simp add: d normalizeMessage_def)
        qed
      next
        case False
        with assms k e \<open>k \<noteq> JStr ''snapshot''\<close> obj t have "d = Unnormalized m"
          by (cases t) (auto simp: normalizeMessage_def)
        with assms show ?thesis by simp
      qed
    qed
  qed
qed

section \<open>Facts about the lifecycle\<close>

lemma setTimeout_fields [simp]:
  "connectionStatus (setTimeout cb ms s) = connectionStatus s"
  "lastError (setTimeout cb ms s) = lastError s"
  "snapshot (setTimeout cb ms s) = snapshot s"
  "events (setTimeout cb ms s) = events s"
  "shutdownState (setTimeout cb ms s) = shutdownState s"
  "isInitialLoading (setTimeout cb ms s) = isInitialLoading s"
  "heartbeatAnimIds (setTimeout cb ms s) = heartbeatAnimIds s"
  "wsRef (setTimeout cb ms s) = wsRef s"
  "nextEventIdRef (setTimeout cb ms s) = nextEventIdRef s"
  "pollingTimerRef (setTimeout cb ms s) = pollingTimerRef s"
  "sockets (setTimeout cb ms s) = sockets s"
  by (simp_all add: setTimeout_def)

lemma clearTimeout_fields [simp]:
  "connectionStatus (clearTimeout t s) = connectionStatus s"
  "lastError (clearTimeout t s) = lastError s"
  "snapshot (clearTimeout t s) = snapshot s"
  "events (clearTimeout t s) = events s"
  "shutdownState (clearTimeout t s) = shutdownState s"
  "isInitialLoading (clearTimeout t s) = isInitialLoading s"
  "heartbeatAnimIds (clearTimeout t s) = heartbeatAnimIds s"
  "wsRef (clearTimeout t s) = wsRef s"
  "nextEventIdRef (clearTimeout t s) = nextEventIdRef s"
  "pollingTimerRef (clearTimeout t s) = pollingTimerRef s"
  "sockets (clearTimeout t s) = sockets s"
  "nextTimerId (clearTimeout t s) = nextTimerId s"
  by (simp_all add: clearTimeout_def)

lemma clearPollingTimer_fields [simp]:
  "connectionStatus (clearPollingTimer s) = connectionStatus s"
  "lastError (clearPollingTimer s) = lastError s"
  "snapshot (clearPollingTimer s) = snapshot s"
  "events (clearPollingTimer s) = events s"
  "shutdownState (clearPollingTimer s) = shutdownState s"
  "isInitialLoading (clearPollingTimer s) = isInitialLoading s"
  "heartbeatAnimIds (clearPollingTimer s) = heartbeatAnimIds s"
  "wsRef (clearPollingTimer s) = wsRef s"
  "nextEventIdRef (clearPollingTimer s) = nextEventIdRef s"
  "pollingTimerRef (clearPollingTimer s) = None"
  "sockets (clearPollingTimer s) = sockets s"
  "nextTimerId (clearPollingTimer s) = nextTimerId s"
  by (simp_all add: clearPollingTimer_def split: option.splits)

lemma scheduleReconnectPoll_fields [simp]:
  "connectionStatus (scheduleReconnectPoll s) = Polling"
  "lastError (scheduleReconnectPoll s) = lastError s"
  "snapshot (scheduleReconnectPoll s) = snapshot s"
  "events (scheduleReconnectPoll s) = events s"
  "shutdownState (scheduleReconnectPoll s) = shutdownState s"
  "isInitialLoading (scheduleReconnectPoll s) = isInitialLoading s"
  "heartbeatAnimIds (scheduleReconnectPoll s) = heartbeatAnimIds s"
  "wsRef (scheduleReconnectPoll s) = wsRef s"
  "nextEventIdRef (scheduleReconnectPoll s) = nextEventIdRef s"
  "pollingTimerRef (scheduleReconnectPoll s) = Some (nextTimerId s)"
  "sockets (scheduleReconnectPoll s) = sockets s"
  by (simp_all add: scheduleReconnectPoll_def Let_def)

lemma reconnectPollFired_fields [simp]:
  "lastError (reconnectPollFired s) = lastError s"
  "snapshot (reconnectPollFired s) = snapshot s"
  "events (reconnectPollFired s) = events s"
  "shutdownState (reconnectPollFired s) = shutdownState s"
  "wsRef (reconnectPollFired s) = wsRef s"
  "nextEventIdRef (reconnectPollFired s) = nextEventIdRef s"
  "sockets (reconnectPollFired s) = sockets s"
  "timers (reconnectPollFired s) = timers s"
  by (simp_all add: reconnectPollFired_def)

lemma pulseExpired_fields [simp]:
  "connectionStatus (pulseExpired k i s) = connectionStatus s"
  "lastError (pulseExpired k i s) = lastError s"
  "snapshot (pulseExpired k i s) = snapshot s"
  "events (pulseExpired k i s) = events s"
  "shutdownState (pulseExpired k i s) = shutdownState s"
  "wsRef (pulseExpired k i s) = wsRef s"
  "nextEventIdRef (pulseExpired k i s) = nextEventIdRef s"
  "sockets (pulseExpired k i s) = sockets s"
  "timers (pulseExpired k i s) = timers s"
  by (simp_all add: pulseExpired_def)

lemma fire_fields [simp]:
  "lastError (fire cb s) = lastError s"
  "snapshot (fire cb s) = snapshot s"
  "events (fire cb s) = events s"
  "shutdownState (fire cb s) = shutdownState s"
  "wsRef (fire cb s) = wsRef s"
  "nextEventIdRef (fire cb s) = nextEventIdRef s"
  "sockets (fire cb s) = sockets s"
  "timers (fire cb s) = timers s"
  by (simp_all add: fire_def split: timer_callback.splits)

lemma heartbeat_fields [simp]:
  "connectionStatus (heartbeat ops nid nowIso s) = connectionStatus s"
  "lastError (heartbeat ops nid nowIso s) = lastError s"
  "events (heartbeat ops nid nowIso s) = events s"
  "shutdownState (heartbeat ops nid nowIso s) = shutdownState s"
  "isInitialLoading (heartbeat ops nid nowIso s) = isInitialLoading s"
  "wsRef (heartbeat ops nid nowIso s) = wsRef s"
  "nextEventIdRef (heartbeat ops nid nowIso s) = nextEventIdRef s"
  "pollingTimerRef (heartbeat ops nid nowIso s) = pollingTimerRef s"
  "sockets (heartbeat ops nid nowIso s) = sockets s"
  by (simp_all add: heartbeat_def Let_def)

lemma connect_fields [simp]:
  "snapshot (connect ok s) = snapshot s"
  "events (connect ok s) = events s"
  "shutdownState (connect ok s) = shutdownState s"
  "nextEventIdRef (connect ok s) = nextEventIdRef s"
  "heartbeatAnimIds (connect ok s) = heartbeatAnimIds s"
  by (simp_all add: connect_def Let_def)

lemma useEffect_body_fields [simp]:
  "snapshot (useEffect_body ok s) = snapshot s"
  "events (useEffect_body ok s) = events s"
  "shutdownState (useEffect_body ok s) = shutdownState s"
  "nextEventIdRef (useEffect_body ok s) = nextEventIdRef s"
  "heartbeatAnimIds (useEffect_body ok s) = heartbeatAnimIds s"
  by (simp_all add: useEffect_body_def)

lemma useEffect_body_connected: "wsRef s \<noteq> None \<Longrightarrow> useEffect_body ok s = s"
  by (auto simp: useEffect_body_def)

lemma rerender_fields [simp]:
  "snapshot (rerender ok b s) = snapshot s"
  "events (rerender ok b s) = events s"
  "shutdownState (rerender ok b s) = shutdownState s"
  "nextEventIdRef (rerender ok b s) = nextEventIdRef s"
  "heartbeatAnimIds (rerender ok b s) = heartbeatAnimIds s"
  by (simp_all add: rerender_def useEffect_cleanup_def Let_def)

lemma rerender_connected:
  "wsRef s \<noteq> None \<Longrightarrow>
   rerender ok b s = (if connectionStatus s = connectionStatus b then s else clearPollingTimer s)"
  by (simp add: rerender_def useEffect_cleanup_def Let_def useEffect_body_connected)

lemma rerender_same: "connectionStatus s = connectionStatus b \<Longrightarrow> rerender ok b s = s"
  by (simp add: rerender_def)


lemma onopen_fields [simp]:
  "wsRef (onopen ws s) = wsRef s"
  "nextEventIdRef (onopen ws s) = nextEventIdRef s"
  "sockets (onopen ws s) = sockets s"
  by (simp_all add: onopen_def)

lemma onopen_current [simp]:
  "wsRef s = Some ws \<Longrightarrow> events (onopen ws s) = []"
  "wsRef s = Some ws \<Longrightarrow> snapshot (onopen ws s) = None"
  "wsRef s = Some ws \<Longrightarrow> connectionStatus (onopen ws s) = Open"
  by (simp_all add: onopen_def)

lemma onopen_events: "events (onopen ws s) = (if wsRef s = Some ws then [] else events s)"
  by (simp add: onopen_def)

lemma onerror_fields [simp]:
  "wsRef (onerror ws s) = wsRef s"
  "nextEventIdRef (onerror ws s) = nextEventIdRef s"
  "events (onerror ws s) = events s"
  "snapshot (onerror ws s) = snapshot s"
  "sockets (onerror ws s) = sockets s"
  by (simp_all add: onerror_def)

lemma onclose_fields [simp]:
  "wsRef (onclose ws s) = wsRef s"
  "nextEventIdRef (onclose ws s) = nextEventIdRef s"
  "events (onclose ws s) = events s"
  "snapshot (onclose ws s) = snapshot s"
  "sockets (onclose ws s) = sockets s"
  by (simp_all add: onclose_def)

lemma onmessage_rejected:
  assumes "wsRef s = Some ws" "accepted ops parsed = None"
  shows "connectionStatus (onmessage ops ws parsed clockText nowIso s) = connectionStatus s"
    and "snapshot (onmessage ops ws parsed clockText nowIso s) = snapshot s"
    and "events (onmessage ops ws parsed clockText nowIso s) = events s"
    and "shutdownState (onmessage ops ws parsed clockText nowIso s) = shutdownState s"
    and "isInitialLoading (onmessage ops ws parsed clockText nowIso s) = isInitialLoading s"
    and "heartbeatAnimIds (onmessage ops ws parsed clockText nowIso s) = heartbeatAnimIds s"
    and "wsRef (onmessage ops ws parsed clockText nowIso s) = wsRef s"
    and "pollingTimerRef (onmessage ops ws parsed clockText nowIso s) = pollingTimerRef s"
    and "sockets (onmessage ops ws parsed clockText nowIso s) = sockets s"
    and "timers (onmessage ops ws parsed clockText nowIso s) = timers s"
    and "nextTimerId (onmessage ops ws parsed clockText nowIso s) = nextTimerId s"
    and "\<exists>err. lastError (onmessage ops ws parsed clockText nowIso s) = Some (FailedToParse err)"
    and "nextEventIdRef s \<le> nextEventIdRef (onmessage ops ws parsed clockText nowIso s)"
  using assms
  by (auto simp: onmessage_def accepted_def Let_def split: option.splits sum.splits)

lemma onmessage_accepted:
  assumes "wsRef s = Some ws" "accepted ops parsed = Some data"
  shows "\<exists>item. events (onmessage ops ws parsed clockText nowIso s)
                  = slice_last 300 (events s @ [item])
           \<and> payload item = data \<and> item_id item = nextEventIdRef s
           \<and> receivedAt item = clockText"
    and "nextEventIdRef (onmessage ops ws parsed clockText nowIso s) = nextEventIdRef s + 1"
    and "wsRef (onmessage ops ws parsed clockText nowIso s) = wsRef s"
    and "lastError (onmessage ops ws parsed clockText nowIso s) = lastError s"
    and "sockets (onmessage ops ws parsed clockText nowIso s) = sockets s"
  using assms
  by (auto simp: onmessage_def accepted_def Let_def
           split: option.splits sum.splits NormalizedObserveMessage.splits
                  NormalizedObserveEvent.splits)

lemma onmessage_wsRef [simp]: "wsRef (onmessage ops ws parsed clockText nowIso s) = wsRef s"
  by (cases "wsRef s = Some ws"; cases "accepted ops parsed")
     (simp_all add: onmessage_rejected onmessage_accepted, simp_all add: onmessage_def)

lemma onmessage_sockets [simp]: "sockets (onmessage ops ws parsed clockText nowIso s) = sockets s"
  by (cases "wsRef s = Some ws"; cases "accepted ops parsed")
     (simp_all add: onmessage_rejected onmessage_accepted, simp_all add: onmessage_def)

lemma rerender_wsRef_connected [simp]:
  "wsRef s \<noteq> None \<Longrightarrow> wsRef (rerender ok b s) = wsRef s"
  by (simp add: rerender_connected)

lemma rerender_sockets_connected [simp]:
  "wsRef s \<noteq> None \<Longrightarrow> sockets (rerender ok b s) = sockets s"
  by (simp add: rerender_connected)

lemma run_Nil [simp]: "run ops ok [] s = s"
  by (simp add: run_def)

lemma run_Cons [simp]: "run ops ok (i # inputs) s = run ops ok inputs (step ops ok i s)"
  by (simp add: run_def)

lemma run_append: "run ops ok (xs @ ys) s = run ops ok ys (run ops ok xs s)"
  by (simp add: run_def)

lemma slice_last_length: "length (slice_last n xs) \<le> n"
  by (simp add: slice_last_def)

lemma slice_last_short: "length xs \<le> n \<Longrightarrow> slice_last n xs = xs"
  by (simp add: slice_last_def)

lemma slice_last_subset: "set (slice_last n xs) \<subseteq> set xs"
  by (simp add: slice_last_def set_drop_subset)

lemma slice_last_append: "slice_last n (slice_last n xs @ ys) = slice_last n (xs @ ys)"
  by (cases "length xs \<le> n") (simp_all add: slice_last_def add.commute)

lemma slice_last_map: "map f (slice_last n xs) = slice_last n (map f xs)"
  by (simp add: slice_last_def drop_map)

lemma slice_last_long:
  "n \<le> length ys \<Longrightarrow> slice_last n (xs @ ys) = slice_last n ys"
  by (simp add: slice_last_def)

text \<open>What one input does to the log and to the id counter.\<close>

lemma step_log:
  "nextEventIdRef s \<le> nextEventIdRef (step ops ok i s) \<and>
   (events (step ops ok i s) = events s \<or> events (step ops ok i s) = [] \<or>
    (\<exists>item. events (step ops ok i s) = slice_last 300 (events s @ [item])
       \<and> item_id item = nextEventIdRef s
       \<and> nextEventIdRef (step ops ok i s) = nextEventIdRef s + 1))"
proof (cases i)
  case Mount
  then show ?thesis by (simp add: step_def)
next
  case (SocketOpened ws)
  then show ?thesis by (simp add: step_def onopen_events)
next
  case (SocketMessage ws parsed clockText nowIso)
  show ?thesis
  proof (cases "wsRef s = Some ws")
    case False
    with SocketMessage show ?thesis by (simp add: step_def onmessage_def)
  next
    case True
    show ?thesis
    proof (cases "accepted ops parsed")
      case None
      with True SocketMessage show ?thesis
        by (simp add: step_def onmessage_rejected)
    next
      case (Some data)
      from onmessage_accepted [OF True Some, of clockText nowIso] SocketMessage
      show ?thesis
        by (auto simp: step_def)
    qed
  qed
next
  case (SocketError ws)
  then show ?thesis by (simp add: step_def)
next
  case (SocketClosed ws)
  then show ?thesis by (simp add: step_def)
next
  case (TimerFired t)
  then show ?thesis by (simp add: step_def split: option.splits)
qed

lemma step_length:
  "length (events s) \<le> 300 \<Longrightarrow> length (events (step ops ok i s)) \<le> 300"
  using step_log [of s ops ok i] by (auto simp: slice_last_length)

lemma run_length:
  "length (events s) \<le> 300 \<Longrightarrow> length (events (run ops ok inputs s)) \<le> 300"
  by (induction inputs arbitrary: s) (simp_all add: step_length)

lemma step_ids:
  assumes "\<forall>e \<in> set (events s). lo \<le> item_id e \<and> item_id e < nextEventIdRef s"
    and "lo \<le> nextEventIdRef s"
  shows "(\<forall>e \<in> set (events (step ops ok i s)).
            lo \<le> item_id e \<and> item_id e < nextEventIdRef (step ops ok i s))
         \<and> lo \<le> nextEventIdRef (step ops ok i s)"
proof -
  have mono: "nextEventIdRef s \<le> nextEventIdRef (step ops ok i s)"
    using step_log by blast
  consider (same) "events (step ops ok i s) = events s"
    | (reset) "events (step ops ok i s) = []"
    | (logged) item where "events (step ops ok i s) = slice_last 300 (events s @ [item])"
        "item_id item = nextEventIdRef s"
        "nextEventIdRef (step ops ok i s) = nextEventIdRef s + 1"
    using step_log [of s ops ok i] by blast
  then show ?thesis
  proof cases
    case same
    with assms mono show ?thesis by fastforce
  next
    case reset
    with assms mono show ?thesis by simp
  next
    case logged
    have "set (events (step ops ok i s)) \<subseteq> set (events s) \<union> {item}"
      using slice_last_subset [of 300 "events s @ [item]"] logged(1) by auto
    with assms logged(2,3) show ?thesis by fastforce
  qed
qed

lemma run_ids:
  assumes "\<forall>e \<in> set (events s). lo \<le> item_id e \<and> item_id e < nextEventIdRef s"
    and "lo \<le> nextEventIdRef s"
  shows "(\<forall>e \<in> set (events (run ops ok inputs s)).
            lo \<le> item_id e \<and> item_id e < nextEventIdRef (run ops ok inputs s))
         \<and> lo \<le> nextEventIdRef (run ops ok inputs s)"
  using assms
proof (induction inputs arbitrary: s)
  case Nil
  then show ?case by simp
next
  case (Cons i inputs)
  from step_ids [OF Cons.prems, of ops ok i] Cons.IH [of "step ops ok i s"]
  show ?case by simp
qed

lemma run_counter_mono: "nextEventIdRef s \<le> nextEventIdRef (run ops ok inputs s)"
proof (induction inputs arbitrary: s)
  case Nil
  then show ?case by simp
next
  case (Cons i inputs)
  have "nextEventIdRef s \<le> nextEventIdRef (step ops ok i s)"
    using step_log by blast
  with Cons [of "step ops ok i s"] show ?case by simp
qed

text \<open>
  Two rounds of the effect are all \<open>rerender\<close> needs: a body that changed the status left
  it at \<open>polling\<close>, where the next body does nothing.
\<close>

lemma rerender_settles:
  assumes "s1 = useEffect_body ok (useEffect_cleanup s)"
    and "connectionStatus s1 \<noteq> connectionStatus s"
  shows "connectionStatus (useEffect_body ok (useEffect_cleanup s1)) = connectionStatus s1"
proof -
  from assms have "connectionStatus s1 = Polling"
    by (auto simp: useEffect_body_def useEffect_cleanup_def connect_def Let_def
             split: if_splits)
  then show ?thesis
    by (simp add: useEffect_body_def useEffect_cleanup_def)
qed

text \<open>
  A wire object that \<open>normalizeMessage\<close> hands back as it is has no \<open>kind\<close> \<open>snapshot\<close> and
  no event of type \<open>neuron_heartbeat\<close> or \<open>cortex_shutdown_notice\<close>: the three tests
  \<open>onmessage\<close> makes after logging are false for it.
\<close>

lemma unnormalized_is_no_known_message:
  assumes "normalizeMessage ops wire = Inr (Unnormalized w)"
  shows "w = wire \<and> js_get w ''kind'' \<noteq> Inr (JStr ''snapshot'')
       \<and> (\<forall>e. js_get w ''event'' = Inr e \<longrightarrow>
             js_get e ''type'' \<noteq> Inr (JStr ''neuron_heartbeat'')
           \<and> js_get e ''type'' \<noteq> Inr (JStr ''cortex_shutdown_notice''))"
proof -
  from assms obtain k where k: "js_get wire ''kind'' = Inr k"
    by (auto simp: normalizeMessage_def and_then_eq_Inr)
  with assms have ns: "k \<noteq> JStr ''snapshot''"
    by (auto simp: normalizeMessage_def and_then_eq_Inr)
  with assms k obtain e where e: "js_get wire ''event'' = Inr e"
    by (auto simp: normalizeMessage_def and_then_eq_Inr)
  have "w = wire \<and> js_get e ''type'' \<noteq> Inr (JStr ''neuron_heartbeat'')
      \<and> js_get e ''type'' \<noteq> Inr (JStr ''cortex_shutdown_notice'')"
  proof (cases "\<not> truthy ops e \<or> \<not> typeof_object e")
    case True
    with assms k ns e have "w = wire" by (auto simp: normalizeMessage_def)
    with True show ?thesis by (cases e) auto
  next
    case False
    with assms k ns e obtain t where t: "js_get e ''type'' = Inr t"
      by (auto simp: normalizeMessage_def and_then_eq_Inr)
    show ?thesis
    proof (cases "\<exists>ty. t = JStr ty")
      case no: False
      with assms k ns e False t have "w = wire"
        by (cases t) (auto simp: normalizeMessage_def)
      with no t show ?thesis by auto
    next
      case True
      then obtain ty where ty: "t = JStr ty" by blast
      with assms k ns e False t obtain r where r: "normalizeEvent ops e ty = Inr r"
        by (auto simp: normalizeMessage_def and_then_eq_Inr)
      with assms k ns e False t ty have rn: "r = None" and w: "w = wire"
        by (cases r; auto simp: normalizeMessage_def)+
      have a: "\<exists>a b. js_get e ''neuron_id'' = Inr a \<and> js_get e ''metrics'' = Inr b"
        and b: "\<exists>a. js_get e ''reason'' = Inr a"
        using False by (cases e; auto)+
      from r rn a have "ty \<noteq> ''neuron_heartbeat''"
        by (auto simp: normalizeEvent_def and_then_eq_Inr)
      moreover from r rn b have "ty \<noteq> ''cortex_shutdown_notice''"
        by (auto simp: normalizeEvent_def)
      ultimately show ?thesis using w t ty by simp
    qed
  qed
  with k ns e show ?thesis by simp
qed

section \<open>The sample values\<close>

lemma opened_eval:
  "opened = initial\<lparr>connectionStatus := Open, sockets := [OPEN], wsRef := Some 0\<rparr>"
  by (simp add: opened_def step_def rerender_def useEffect_body_def useEffect_cleanup_def
        connect_def onopen_def clearPollingTimer_def initial_def Let_def)

lemma opened_fields [simp]:
  "wsRef opened = Some 0" "events opened = []" "snapshot opened = None"
  "connectionStatus opened = Open" "nextEventIdRef opened = 1" "lastError opened = None"
  "pollingTimerRef opened = None" "timers opened = []" "sockets opened = [OPEN]"
  "nextTimerId opened = 0" "heartbeatAnimIds opened = Map.empty"
  by (simp_all add: opened_eval initial_def)

lemma normalize_snapshot_frame:
  "normalizeMessage nat_number_ops snapshot_frame = Inr (Snapshot sample_neurons)"
  by (simp add: snapshot_frame_def sample_neurons_def normalizeMessage_def normalizeSnapshot_def
        normalizeNeuron_def normalizeModelStatus_def normalizeModelId_def and_get_def
        nullish_or_def nat_number_ops_def)

lemma normalize_heartbeat_frame:
  "normalizeMessage nat_number_ops heartbeat_frame
     = Inr (Event (NeuronHeartbeat ''alpha'' (JObj [])))"
  by (simp add: heartbeat_frame_def normalizeMessage_def normalizeEvent_def nullish_or_def)


lemma normalize_shutdown_frame:
  "normalizeMessage nat_number_ops shutdown_frame
     = Inr (Event (CortexShutdownNotice (JStr ''maintenance'')))"
  by (simp add: shutdown_frame_def normalizeMessage_def normalizeEvent_def nullish_or_def)


lemma kind_and_eventType_Snapshot [simp]:
  "kind_and_eventType (Snapshot ns) = Inr (JStr ''snapshot'', JStr ''snapshot'')"
  by (simp add: kind_and_eventType_def)

lemma kind_and_eventType_Event:
  "\<exists>t. kind_and_eventType (Event ev) = Inr (JStr ''event'', JStr t)"
  by (cases ev) (simp_all add: kind_and_eventType_def)

lemma accepted_Snapshot:
  "normalizeMessage ops wire = Inr (Snapshot ns) \<Longrightarrow> accepted ops (Some wire) = Some (Snapshot ns)"
  by (simp add: accepted_def)

lemma accepted_Event:
  "normalizeMessage ops wire = Inr (Event ev) \<Longrightarrow> accepted ops (Some wire) = Some (Event ev)"
  using kind_and_eventType_Event [of ev] by (auto simp: accepted_def)

section \<open>The log under a sequence of frames\<close>

lemma deliver_snoc:
  "deliver ws (frames @ [(parsed, clockText, nowIso)])
     = deliver ws frames @ [SocketMessage ws parsed clockText nowIso]"
  by (simp add: deliver_def)

lemma processed_snoc:
  "processed ops (frames @ [(parsed, clockText, nowIso)])
     = processed ops frames @ (case accepted ops parsed of None \<Rightarrow> [] | Some d \<Rightarrow> [d])"
  by (simp add: processed_def List.map_filter_def split: option.splits)

lemma processed_replicate:
  "accepted ops parsed = Some d \<Longrightarrow>
   processed ops (replicate n (parsed, clockText, nowIso)) = replicate n d"
  by (induction n) (simp_all add: processed_def List.map_filter_def)

lemma deliver_log:
  assumes "wsRef s = Some ws" and "length (events s) \<le> 300"
  shows "wsRef (run ops ok (deliver ws frames) s) = Some ws \<and>
         (\<exists>new. events (run ops ok (deliver ws frames) s) = slice_last 300 (events s @ new)
            \<and> map payload new = processed ops frames
            \<and> sorted_wrt (<) (map item_id new)
            \<and> (\<forall>e \<in> set new. item_id e < nextEventIdRef (run ops ok (deliver ws frames) s)))"
proof (induction frames rule: rev_induct)
  case Nil
  from assms show ?case
    by (simp add: deliver_def processed_def List.map_filter_def slice_last_short)
next
  case (snoc f frames)
  obtain parsed clockText nowIso where f: "f = (parsed, clockText, nowIso)"
    by (cases f) auto
  define s1 where "s1 = run ops ok (deliver ws frames) s"
  define s2 where "s2 = onmessage ops ws parsed clockText nowIso s1"
  from snoc obtain new where
    ws1: "wsRef s1 = Some ws" and
    ev1: "events s1 = slice_last 300 (events s @ new)" and
    pl1: "map payload new = processed ops frames" and
    so1: "sorted_wrt (<) (map item_id new)" and
    id1: "\<forall>e \<in> set new. item_id e < nextEventIdRef s1"
    unfolding s1_def by blast
  have run: "run ops ok (deliver ws (frames @ [f])) s = rerender ok s1 s2"
    by (simp add: f deliver_snoc run_append s1_def s2_def step_def)
  have ws2: "wsRef s2 = Some ws"
    by (simp add: s2_def ws1)
  show ?case
  proof (cases "accepted ops parsed")
    case None
    from onmessage_rejected(3,13) [OF ws1 None, of clockText nowIso]
    have "events s2 = events s1" "nextEventIdRef s1 \<le> nextEventIdRef s2"
      by (simp_all add: s2_def)
    with ev1 pl1 so1 id1 ws2 None show ?thesis
      unfolding run by (auto simp: f processed_snoc intro!: exI [of _ new])
  next
    case (Some d)
    from onmessage_accepted(1,2) [OF ws1 Some, of clockText nowIso]
    obtain item where
      ev2: "events s2 = slice_last 300 (events s1 @ [item])" and
      it: "payload item = d" "item_id item = nextEventIdRef s1" and
      c2: "nextEventIdRef s2 = nextEventIdRef s1 + 1"
      unfolding s2_def by blast
    have "events s2 = slice_last 300 (events s @ (new @ [item]))"
      by (simp add: ev2 ev1 slice_last_append)
    moreover have "map payload (new @ [item]) = processed ops (frames @ [f])"
      by (simp add: f processed_snoc Some pl1 it)
    moreover have "sorted_wrt (<) (map item_id (new @ [item]))"
      using so1 id1 it by (simp add: sorted_wrt_append)
    moreover have "\<forall>e \<in> set (new @ [item]). item_id e < nextEventIdRef s2"
      using id1 it c2 by auto
    ultimately show ?thesis
      using ws2 unfolding run by (auto intro!: exI [of _ "new @ [item]"])
  qed
qed

lemma initial_ids:
  "(\<forall>e \<in> set (events (run ops ok inputs initial)).
      1 \<le> item_id e \<and> item_id e < nextEventIdRef (run ops ok inputs initial))
   \<and> 1 \<le> nextEventIdRef (run ops ok inputs initial)"
  by (rule run_ids) (simp_all add: initial_def)

lemma kind_and_eventType_sample [simp]:
  "kind_and_eventType (Event (NeuronHeartbeat nid m) :: nat NormalizedObserveMessage)
     = Inr (JStr ''event'', JStr ''neuron_heartbeat'')"
  "kind_and_eventType (Event (CortexShutdownNotice r) :: nat NormalizedObserveMessage)
     = Inr (JStr ''event'', JStr ''cortex_shutdown_notice'')"
  "kind_and_eventType (Event (ModelStateChanged nid ms) :: nat NormalizedObserveMessage)
     = Inr (JStr ''event'', JStr ''model_state_changed'')"
  by (simp_all add: kind_and_eventType_def)

lemma first_epoch_opened:
  "run nat_number_ops True first_epoch initial
     = run nat_number_ops True
         [SocketMessage 0 (Some snapshot_frame) ''12:00:00'' ''2026-01-01T12:00:00.000Z'',
          SocketMessage 0 (Some heartbeat_frame) ''12:00:05'' ''2026-01-01T12:00:05.000Z'']
         opened"
  by (simp add: first_epoch_def opened_def)

lemma first_epoch_eval:
  "map item_id (events (run nat_number_ops True first_epoch initial)) = [1, 2]"
  "wsRef (run nat_number_ops True first_epoch initial) = Some 0"
  "nextEventIdRef (run nat_number_ops True first_epoch initial) = 3"
  by (simp_all add: first_epoch_opened step_def onmessage_def normalize_snapshot_frame
        normalize_heartbeat_frame rerender_same slice_last_def Let_def)


lemma second_epoch_eval:
  "map item_id
     (events (run nat_number_ops True
                [SocketMessage 0 (Some heartbeat_frame) ''12:01:00'' ''2026-01-01T12:01:00.000Z'']
                (step nat_number_ops True (SocketOpened 0)
                   (run nat_number_ops True first_epoch initial)))) = [3]"
  by (simp add: step_def onmessage_def normalize_heartbeat_frame rerender_same slice_last_def
        Let_def first_epoch_eval onopen_events)

lemma with_table_fields [simp]:
  "wsRef with_table = Some 0" "snapshot with_table = Some sample_neurons"
  "connectionStatus with_table = Open" "nextEventIdRef with_table = 2"
  "lastError with_table = None" "length (events with_table) = 1"
  "pollingTimerRef with_table = None" "timers with_table = []" "sockets with_table = [OPEN]"
  "nextTimerId with_table = 0"
  "shutdownState with_table
     = \<lparr>seenShutdownNotice = False, lastReason = JNull, lastSeenAt = None\<rparr>"
  by (simp_all add: with_table_def step_def onmessage_def normalize_snapshot_frame
        rerender_same slice_last_def Let_def initial_def opened_eval)

lemma heartbeat_matches_iff:
  "heartbeat_matches ops neuronId n \<longleftrightarrow>
     js_get (descriptor n) ''node_id'' = Inr (JStr neuronId) \<or>
     js_get (descriptor n) ''label'' = Inr (JStr neuronId)"
  by (cases "descriptor n") (auto simp: heartbeat_matches_def array_index_def is_digit_def)

lemma step_message_connected:
  "wsRef s = Some ws \<Longrightarrow>
   connectionStatus (onmessage ops ws parsed clockText nowIso s) = connectionStatus s \<Longrightarrow>
   step ops ok (SocketMessage ws parsed clockText nowIso) s
     = onmessage ops ws parsed clockText nowIso s"
  by (simp add: step_def rerender_same)

section \<open>Facts about reconnecting\<close>

lemma step_connected:
  assumes "wsRef s = Some ws"
  shows "wsRef (step ops ok i s) = Some ws \<and> length (sockets (step ops ok i s)) = length (sockets s)"
proof (cases i)
  case Mount
  with assms show ?thesis by (simp add: step_def useEffect_body_connected rerender_same)
next
  case (SocketOpened w)
  with assms show ?thesis by (simp add: step_def)
next
  case (SocketMessage w parsed clockText nowIso)
  with assms show ?thesis by (simp add: step_def)
next
  case (SocketError w)
  with assms show ?thesis by (simp add: step_def)
next
  case (SocketClosed w)
  with assms show ?thesis by (simp add: step_def)
next
  case (TimerFired t)
  with assms show ?thesis by (simp add: step_def split: option.splits)
qed

lemma run_connected:
  "wsRef s = Some ws \<Longrightarrow>
   wsRef (run ops ok inputs s) = Some ws
   \<and> length (sockets (run ops ok inputs s)) = length (sockets s)"
proof (induction inputs arbitrary: s)
  case Nil
  then show ?case by simp
next
  case (Cons i inputs)
  from step_connected [OF Cons.prems, of ops ok i] Cons.IH [of "step ops ok i s"]
  show ?case by simp
qed

lemma outage_before_timer:
  "run nat_number_ops True
     [SocketMessage 0 (Some shutdown_frame) ''12:00:00'' ''2026-01-01T12:00:00.000Z'',
      SocketClosed 0] opened
   = opened\<lparr>connectionStatus := Polling, isInitialLoading := False,
       events := [\<lparr>item_id = 1, receivedAt = ''12:00:00'', kind = JStr ''event'',
                  eventType = JStr ''cortex_shutdown_notice'',
                  payload = Event (CortexShutdownNotice (JStr ''maintenance''))\<rparr>],
       shutdownState := \<lparr>seenShutdownNotice = True, lastReason = JStr ''maintenance'',
                          lastSeenAt = Some ''2026-01-01T12:00:00.000Z''\<rparr>,
       nextEventIdRef := 2, pollingTimerRef := Some 1, sockets := [CLOSED],
       timers := [\<lparr>timer_id = 1, delay_ms = 60000, callback = ReconnectPoll\<rparr>],
       nextTimerId := 2\<rparr>"
  by (simp add: opened_eval initial_def step_def onmessage_def normalize_shutdown_frame
        onclose_def scheduleReconnectPoll_def clearPollingTimer_def setTimeout_def
        clearTimeout_def rerender_def useEffect_body_def useEffect_cleanup_def slice_last_def
        Let_def)


lemma outage_split:
  "run nat_number_ops True outage initial
     = step nat_number_ops True (TimerFired 1)
         (run nat_number_ops True
            [SocketMessage 0 (Some shutdown_frame) ''12:00:00'' ''2026-01-01T12:00:00.000Z'',
             SocketClosed 0] opened)"
  by (simp add: outage_def opened_def)

lemma plain_close_eval:
  "run nat_number_ops True plain_close initial
     = opened\<lparr>connectionStatus := Polling, isInitialLoading := False, sockets := [CLOSED],
         nextTimerId := 1\<rparr>"
proof -
  have "run nat_number_ops True plain_close initial
          = step nat_number_ops True (SocketClosed 0) opened"
    by (simp add: plain_close_def opened_def)
  then show ?thesis
    by (simp add: opened_eval initial_def step_def onclose_def scheduleReconnectPoll_def
          clearPollingTimer_def setTimeout_def clearTimeout_def rerender_def useEffect_body_def
          useEffect_cleanup_def Let_def)
qed

section \<open>Frames reported as parse failures\<close>


lemma accepted_null [simp]: "accepted ops (Some JNull) = None" "accepted ops None = None"
  by (simp_all add: accepted_def normalizeMessage_def)

section \<open>A value nested too deep\<close>

lemma json_text_nested: "json_text ops d (nested d) = Inl RangeError"
  by (induction d) simp_all

lemma nested_defined: "nested n \<noteq> JUndefined"
  by (cases n) simp_all

lemma normalizeModelId_nested:
  "0 < n \<Longrightarrow> normalizeModelId ops (nested n) = JSON_stringify ops (nested n)"
proof (cases n)
  case (Suc m)
  then show ?thesis
    by (cases m) (simp_all add: normalizeModelId_def array_index_def is_digit_def)
qed simp

lemma deep_command_throws:
  "normalizeProvisioningCommand nat_number_ops deep_command = Inl RangeError"
proof -
  have d: "stringify_depth nat_number_ops = 5000"
    by (simp add: nat_number_ops_def)
  have "JSON_stringify nat_number_ops (nested 5000) = Inl RangeError"
    unfolding JSON_stringify_def d
    using json_text_nested [of nat_number_ops 5000] nested_defined [of 5000]
    by simp
  then show ?thesis
    by (simp add: deep_command_def cmd_object normalizeModelId_nested)
qed

section \<open>The claims\<close>




text \<open>
  C2. What the code does once it has constructed a socket: \<open>wsRef\<close> holds that socket for
  good (nothing ever calls \<open>closeSocket\<close>), and the effect calls \<open>connect\<close> only while
  \<open>wsRef\<close> is empty. So no input, a firing retry timeout included, makes the component
  construct a second socket: when the retry timeout fires in the polling state the status
  becomes \<open>connecting\<close> and no connect attempt follows.
\<close>

theorem retry_never_reconnects:
  assumes "wsRef s = Some ws"
  shows "wsRef (run ops ok inputs s) = Some ws
       \<and> length (sockets (run ops ok inputs s)) = length (sockets s)
       \<and> (find (\<lambda>x. timer_id x = t) (timers s) = Some tm \<and> callback tm = ReconnectPoll
            \<and> connectionStatus s = Polling \<longrightarrow>
            connectionStatus (step ops ok (TimerFired t) s) = Connecting
          \<and> sockets (step ops ok (TimerFired t) s) = sockets s
          \<and> wsRef (step ops ok (TimerFired t) s) = Some ws)"
proof -
  have "connectionStatus (step ops ok (TimerFired t) s) = Connecting
          \<and> sockets (step ops ok (TimerFired t) s) = sockets s
          \<and> wsRef (step ops ok (TimerFired t) s) = Some ws"
    if "find (\<lambda>x. timer_id x = t) (timers s) = Some tm" "callback tm = ReconnectPoll"
      "connectionStatus s = Polling"
    using that assms
    by (simp add: step_def fire_def rerender_connected reconnectPollFired_def)
  with run_connected [OF assms] show ?thesis by blast
qed

text \<open>
  In the outage the retry timeout fires and leaves the component in \<open>connecting\<close> with the
  closed socket still stored, no socket constructed and no timeout pending. After a plain
  close the cleanup of the effect has cancelled the retry timeout that \<open>onclose\<close> had just
  scheduled: the component stays in \<open>polling\<close> with nothing pending.
\<close>

theorem retry_never_reconnects_witness:
  "connectionStatus (run nat_number_ops True outage initial) = Connecting
   \<and> wsRef (run nat_number_ops True outage initial) = Some 0
   \<and> sockets (run nat_number_ops True outage initial) = [CLOSED]
   \<and> timers (run nat_number_ops True outage initial) = []
   \<and> connectionStatus (run nat_number_ops True plain_close initial) = Polling
   \<and> timers (run nat_number_ops True plain_close initial) = []
   \<and> sockets (run nat_number_ops True plain_close initial) = [CLOSED]"
proof -
  define s where "s = run nat_number_ops True
            [SocketMessage 0 (Some shutdown_frame) ''12:00:00'' ''2026-01-01T12:00:00.000Z'',
             SocketClosed 0] opened"
  have s_eq: "s = opened\<lparr>connectionStatus := Polling, isInitialLoading := False,
       events := [\<lparr>item_id = 1, receivedAt = ''12:00:00'', kind = JStr ''event'',
                  eventType = JStr ''cortex_shutdown_notice'',
                  payload = Event (CortexShutdownNotice (JStr ''maintenance''))\<rparr>],
       shutdownState := \<lparr>seenShutdownNotice = True, lastReason = JStr ''maintenance'',
                          lastSeenAt = Some ''2026-01-01T12:00:00.000Z''\<rparr>,
       nextEventIdRef := 2, pollingTimerRef := Some 1, sockets := [CLOSED],
       timers := [\<lparr>timer_id = 1, delay_ms = 60000, callback = ReconnectPoll\<rparr>],
       nextTimerId := 2\<rparr>"
    unfolding s_def by (rule outage_before_timer)
  have o: "run nat_number_ops True outage initial = step nat_number_ops True (TimerFired 1) s"
    unfolding s_def by (rule outage_split)
  have a: "wsRef s = Some 0" "connectionStatus s = Polling" "sockets s = [CLOSED]"
    and f: "find (\<lambda>x. timer_id x = 1) (timers s)
              = Some \<lparr>timer_id = 1, delay_ms = 60000, callback = ReconnectPoll\<rparr>"
    by (simp_all add: s_eq)
  have t: "timers (step nat_number_ops True (TimerFired 1) s) = []"
    by (simp add: s_eq step_def fire_def rerender_connected
          reconnectPollFired_def clearTimeout_def clearPollingTimer_def)
  from retry_never_reconnects [OF a(1), of nat_number_ops True "[]" 1
      "\<lparr>timer_id = 1, delay_ms = 60000, callback = ReconnectPoll\<rparr>"] a f
  have "connectionStatus (step nat_number_ops True (TimerFired 1) s) = Connecting"
    "sockets (step nat_number_ops True (TimerFired 1) s) = [CLOSED]"
    "wsRef (step nat_number_ops True (TimerFired 1) s) = Some 0"
    by simp_all
  with t show ?thesis
    by (simp add: o plain_close_eval)
qed

text \<open>
  C3. The log never holds more than 300 entries, whatever the browser delivers. After a
  sequence of frames on the current socket the payloads in the log are the last 300 of the
  earlier payloads followed by the normalised stream of the frames: every processed
  snapshot or event is there once, in arrival order. When more than 300 messages were
  appended the log holds exactly the most recent 300 of them, with strictly increasing ids.
\<close>

theorem event_log_bounded:
  assumes "wsRef s = Some ws" and "length (events s) \<le> 300"
  shows "length (events (run ops ok inputs s)) \<le> 300
       \<and> map payload (events (run ops ok (deliver ws frames) s))
           = slice_last 300 (map payload (events s) @ processed ops frames)
       \<and> (300 < length (processed ops frames) \<longrightarrow>
            length (events (run ops ok (deliver ws frames) s)) = 300
          \<and> map payload (events (run ops ok (deliver ws frames) s))
              = slice_last 300 (processed ops frames)
          \<and> sorted_wrt (<) (map item_id (events (run ops ok (deliver ws frames) s))))"
proof -
  from deliver_log [OF assms, of ops ok frames] obtain new where
    ev: "events (run ops ok (deliver ws frames) s) = slice_last 300 (events s @ new)" and
    pl: "map payload new = processed ops frames" and
    so: "sorted_wrt (<) (map item_id new)"
    by blast
  have len: "length new = length (processed ops frames)"
    using pl by (metis length_map)
  have a: "map payload (events (run ops ok (deliver ws frames) s))
             = slice_last 300 (map payload (events s) @ processed ops frames)"
    by (simp add: ev slice_last_map pl)
  have b: "length (events (run ops ok (deliver ws frames) s)) = 300
          \<and> map payload (events (run ops ok (deliver ws frames) s))
              = slice_last 300 (processed ops frames)
          \<and> sorted_wrt (<) (map item_id (events (run ops ok (deliver ws frames) s)))"
    if long: "300 < length (processed ops frames)"
  proof -
    from long len have ev': "events (run ops ok (deliver ws frames) s) = slice_last 300 new"
      by (simp add: ev slice_last_long)
    have "length (slice_last 300 new) = 300"
      using long len by (simp add: slice_last_def)
    moreover have "map payload (slice_last 300 new) = slice_last 300 (processed ops frames)"
      by (simp add: slice_last_map pl)
    moreover have "sorted_wrt (<) (map item_id (slice_last 300 new))"
      using so by (simp add: slice_last_def sorted_wrt_drop flip: drop_map)
    ultimately show ?thesis by (simp add: ev')
  qed
  from run_length [OF assms(2)] a b show ?thesis by blast
qed

text \<open>After 301 heartbeat frames on the open socket the log holds the last 300.\<close>

theorem event_log_bounded_witness:
  "wsRef opened = Some 0 \<and> length (events opened) \<le> 300
   \<and> 300 < length (processed nat_number_ops (replicate 301 (Some heartbeat_frame, ''12:00:00'', ''t'')))
   \<and> map payload
        (events (run nat_number_ops True
                   (deliver 0 (replicate 301 (Some heartbeat_frame, ''12:00:00'', ''t''))) opened))
       = replicate 300 (Event (NeuronHeartbeat ''alpha'' (JObj [])))
   \<and> sorted_wrt (<)
        (map item_id
           (events (run nat_number_ops True
                      (deliver 0 (replicate 301 (Some heartbeat_frame, ''12:00:00'', ''t'')))
                      opened)))"
proof -
  have p: "processed nat_number_ops (replicate 301 (Some heartbeat_frame, ''12:00:00'', ''t''))
             = replicate 301 (Event (NeuronHeartbeat ''alpha'' (JObj [])))"
    by (rule processed_replicate) (simp add: accepted_Event normalize_heartbeat_frame)
  have w: "wsRef opened = Some 0" and l: "length (events opened) \<le> 300"
    by simp_all
  from event_log_bounded [OF w l, of nat_number_ops True "[]"
      "replicate 301 (Some heartbeat_frame, ''12:00:00'', ''t'')"]
  show ?thesis
    by (simp add: p slice_last_def)
qed

text \<open>
  C4. A lifecycle callback (open, message, error, close) of a socket that is not the one
  stored in \<open>wsRef\<close> returns the state it was given: connection status, neuron table,
  event log, last error, shutdown state and timers are all unchanged, and no effect runs
  after it. (The browser's own record of the socket's \<open>readyState\<close> is all that moves.)
\<close>

theorem stale_callbacks_change_nothing:
  assumes "wsRef s \<noteq> Some ws"
  shows "onopen ws s = s
       \<and> onmessage ops ws parsed clockText nowIso s = s
       \<and> onerror ws s = s
       \<and> onclose ws s = s
       \<and> step ops ok (SocketMessage ws parsed clockText nowIso) s = s
       \<and> step ops ok (SocketError ws) s = s
       \<and> step ops ok (SocketOpened ws) s = s\<lparr>sockets := (sockets s)[ws := OPEN]\<rparr>
       \<and> step ops ok (SocketClosed ws) s = s\<lparr>sockets := (sockets s)[ws := CLOSED]\<rparr>"
  using assms
  by (simp add: onopen_def onmessage_def onerror_def onclose_def step_def rerender_same)

text \<open>
  With socket 1 current, a shutdown notice and a close that arrive late on socket 0 leave
  the state as it is.
\<close>

theorem stale_callbacks_change_nothing_witness:
  "wsRef (opened\<lparr>wsRef := Some 1, sockets := [CLOSED, OPEN]\<rparr>) \<noteq> Some 0
   \<and> onmessage nat_number_ops 0 (Some shutdown_frame) ''12:00:00'' ''t''
        (opened\<lparr>wsRef := Some 1, sockets := [CLOSED, OPEN]\<rparr>)
     = opened\<lparr>wsRef := Some 1, sockets := [CLOSED, OPEN]\<rparr>
   \<and> onclose 0 (opened\<lparr>wsRef := Some 1, sockets := [CLOSED, OPEN]\<rparr>)
     = opened\<lparr>wsRef := Some 1, sockets := [CLOSED, OPEN]\<rparr>"
proof -
  have h: "wsRef (opened\<lparr>wsRef := Some 1, sockets := [CLOSED, OPEN]\<rparr>) \<noteq> Some 0"
    by simp
  from h stale_callbacks_change_nothing [OF h, of nat_number_ops "Some shutdown_frame"
      "''12:00:00''" "''t''" True]
  show ?thesis by simp
qed

text \<open>
  C5. When a frame normalises to a \<open>neuron_heartbeat\<close> event and a neuron table is present,
  every neuron whose descriptor has the event's \<open>neuron_id\<close> as its \<open>node_id\<close> or as its
  \<open>label\<close> gets the current time as \<open>last_heartbeat_at\<close>, and every other neuron stays as
  it is. That holds for no match, one match or several; no error is recorded and the
  connection status does not move.
\<close>

theorem heartbeat_updates_every_match:
  assumes "wsRef s = Some ws" and "snapshot s = Some neurons"
    and "normalizeMessage ops wire = Inr (Event (NeuronHeartbeat neuronId metrics))"
    and "s' = step ops ok (SocketMessage ws (Some wire) clockText nowIso) s"
  shows "(\<exists>updated. snapshot s' = Some updated \<and> length updated = length neurons
           \<and> (\<forall>i < length neurons.
                 updated ! i =
                   (if js_get (descriptor (neurons ! i)) ''node_id'' = Inr (JStr neuronId)
                       \<or> js_get (descriptor (neurons ! i)) ''label'' = Inr (JStr neuronId)
                    then (neurons ! i)\<lparr>last_heartbeat_at := JStr nowIso\<rparr>
                    else neurons ! i)))
       \<and> lastError s' = lastError s \<and> connectionStatus s' = connectionStatus s"
proof -
  obtain t where kt: "kind_and_eventType (Event (NeuronHeartbeat neuronId metrics) :: 'a NormalizedObserveMessage)
                        = Inr (JStr ''event'', JStr t)"
    using kind_and_eventType_Event by blast
  have om: "onmessage ops ws (Some wire) clockText nowIso s
              = heartbeat ops neuronId nowIso
                  (s\<lparr>nextEventIdRef := nextEventIdRef s + 1,
                     events := slice_last 300
                       (events s @ [\<lparr>item_id = nextEventIdRef s, receivedAt = clockText,
                                     kind = JStr ''event'', eventType = JStr t,
                                     payload = Event (NeuronHeartbeat neuronId metrics)\<rparr>])\<rparr>)"
    using assms(1,3) kt by (simp add: onmessage_def Let_def)
  have st: "s' = onmessage ops ws (Some wire) clockText nowIso s"
    unfolding assms(4) by (rule step_message_connected [OF assms(1)]) (simp add: om)
  have snap: "snapshot s'
      = Some (map (\<lambda>n. if heartbeat_matches ops neuronId n
                         then n\<lparr>last_heartbeat_at := JStr nowIso\<rparr> else n) neurons)"
    by (simp add: st om heartbeat_def Let_def setTimeout_def assms(2))
  have "lastError s' = lastError s" "connectionStatus s' = connectionStatus s"
    by (simp_all add: st om)
  with snap show ?thesis
    by (simp add: heartbeat_matches_iff)
qed

text \<open>
  A heartbeat for \<open>alpha\<close>, the label of the neuron whose identifier is \<open>n1\<close>, updates that
  neuron and leaves the other one alone.
\<close>

theorem heartbeat_updates_every_match_witness:
  "wsRef with_table = Some 0 \<and> snapshot with_table = Some sample_neurons
   \<and> normalizeMessage nat_number_ops heartbeat_frame
       = Inr (Event (NeuronHeartbeat ''alpha'' (JObj [])))
   \<and> js_get (descriptor (sample_neurons ! 0)) ''node_id'' = Inr (JStr ''n1'')
   \<and> js_get (descriptor (sample_neurons ! 0)) ''label'' = Inr (JStr ''alpha'')
   \<and> (\<exists>updated.
         snapshot (step nat_number_ops True
                     (SocketMessage 0 (Some heartbeat_frame) ''12:00:05''
                        ''2026-01-01T12:00:05.000Z'') with_table) = Some updated
         \<and> updated ! 0
             = (sample_neurons ! 0)\<lparr>last_heartbeat_at := JStr ''2026-01-01T12:00:05.000Z''\<rparr>
         \<and> updated ! 1 = sample_neurons ! 1)"
proof -
  have a: "wsRef with_table = Some 0" and b: "snapshot with_table = Some sample_neurons"
    by simp_all
  have d: "js_get (descriptor (sample_neurons ! 0)) ''node_id'' = Inr (JStr ''n1'')"
      "js_get (descriptor (sample_neurons ! 0)) ''label'' = Inr (JStr ''alpha'')"
      "js_get (descriptor (sample_neurons ! 1)) ''node_id'' = Inr (JStr ''n2'')"
      "js_get (descriptor (sample_neurons ! 1)) ''label'' = Inr (JStr ''n2'')"
      "length sample_neurons = 2"
    by (simp_all add: sample_neurons_def)
  from heartbeat_updates_every_match [OF a b normalize_heartbeat_frame refl,
      of True "''12:00:05''" "''2026-01-01T12:00:05.000Z''"]
  obtain updated where
    u: "snapshot (step nat_number_ops True
                    (SocketMessage 0 (Some heartbeat_frame) ''12:00:05''
                       ''2026-01-01T12:00:05.000Z'') with_table) = Some updated"
    and each: "\<forall>i < length sample_neurons.
                 updated ! i =
                   (if js_get (descriptor (sample_neurons ! i)) ''node_id'' = Inr (JStr ''alpha'')
                       \<or> js_get (descriptor (sample_neurons ! i)) ''label'' = Inr (JStr ''alpha'')
                    then (sample_neurons ! i)\<lparr>last_heartbeat_at := JStr ''2026-01-01T12:00:05.000Z''\<rparr>
                    else sample_neurons ! i)"
    by blast
  from each d have "updated ! 0
             = (sample_neurons ! 0)\<lparr>last_heartbeat_at := JStr ''2026-01-01T12:00:05.000Z''\<rparr>"
    by simp
  moreover from each d have "updated ! 1 = sample_neurons ! 1"
    by simp
  ultimately show ?thesis
    using a b d u normalize_heartbeat_frame by simp
qed

text \<open>
  C6. Normalisation is idempotent: when \<open>normalizeMessage\<close> returns a message, normalising
  the object it returned gives the same message again, and when it throws, so does the
  composition. The same holds of \<open>normalizeSnapshot\<close>, \<open>normalizeProvisioningCommand\<close> and
  \<open>normalizeModelId\<close>.
\<close>

theorem normalizeMessage_idempotent:
  "and_then (normalizeMessage ops m) (\<lambda>d. normalizeMessage ops (json_of_message d))
     = normalizeMessage ops m
   \<and> and_then (normalizeSnapshot ops snap) (\<lambda>ns. normalizeSnapshot ops (json_of_snapshot ns))
     = normalizeSnapshot ops snap
   \<and> and_then (normalizeProvisioningCommand ops c)
       (\<lambda>cmd. normalizeProvisioningCommand ops (json_of_command cmd))
     = normalizeProvisioningCommand ops c
   \<and> and_then (normalizeModelId ops i) (normalizeModelId ops) = normalizeModelId ops i"
proof -
  have 1: "and_then (normalizeMessage ops m) (\<lambda>d. normalizeMessage ops (json_of_message d))
             = normalizeMessage ops m"
    by (cases "normalizeMessage ops m") (simp_all add: message_idem)
  have 2: "and_then (normalizeSnapshot ops snap)
             (\<lambda>ns. normalizeSnapshot ops (json_of_snapshot ns)) = normalizeSnapshot ops snap"
    by (cases "normalizeSnapshot ops snap") (simp_all add: snapshot_idem)
  have 3: "and_then (normalizeProvisioningCommand ops c)
             (\<lambda>cmd. normalizeProvisioningCommand ops (json_of_command cmd))
             = normalizeProvisioningCommand ops c"
    by (cases "normalizeProvisioningCommand ops c") (simp_all add: cmd_idem)
  have 4: "and_then (normalizeModelId ops i) (normalizeModelId ops) = normalizeModelId ops i"
    by (cases "normalizeModelId ops i")
       (auto dest: normalizeModelId_range simp: normalizeModelId_fixed)
  from 1 2 3 4 show ?thesis by simp
qed

text \<open>
  At a \<open>provisioning_sent\<close> frame with a numeric neuron id and a legacy command whose model id
  is wrapped: the first pass rewrites all three, the second changes nothing.
\<close>

theorem normalizeMessage_idempotent_witness:
  "normalizeMessage nat_number_ops sent_frame
     = Inr (Event (ProvisioningSent ''7'' (LoadModel (JStr ''gpt-small''))))
   \<and> normalizeMessage nat_number_ops
       (json_of_message (Event (ProvisioningSent ''7'' (LoadModel (JStr ''gpt-small'')))))
     = Inr (Event (ProvisioningSent ''7'' (LoadModel (JStr ''gpt-small''))))"
proof -
  have m: "normalizeModelId nat_number_ops (JArr [JStr ''gpt-small'']) = Inr (JStr ''gpt-small'')"
    by (simp add: normalizeModelId_def array_index_def is_digit_def)
  have c: "normalizeProvisioningCommand nat_number_ops (JObj [(''LoadModel'', JArr [JStr ''gpt-small''])])
             = Inr (LoadModel (JStr ''gpt-small''))"
    by (simp add: normalizeProvisioningCommand_def model_id_of_def m)
  have d: "js_String nat_number_ops (JNum 7) = Inr ''7''"
    by (simp add: nat_number_ops_def dec.simps hex_digit_def)
  have f: "normalizeMessage nat_number_ops sent_frame
             = Inr (Event (ProvisioningSent ''7'' (LoadModel (JStr ''gpt-small''))))"
    by (simp add: sent_frame_def normalizeMessage_def normalizeEvent_def c d
          del: js_String_primitive)
  from f normalizeMessage_idempotent [of nat_number_ops sent_frame]
  show ?thesis by simp
qed




text \<open>
  C8, as stated, fails twice. An object with a legacy key beside other members is neither
  of the two shapes the specification names, yet it is normalised as the legacy command
  and its other members are dropped, where the claim promises an \<open>upsert_model_config\<close>
  with the raw payload. And the function throws: \<open>JSON.stringify\<close> runs out of stack on a
  model id that is nested too deep.
\<close>

theorem legacy_key_drops_other_members:
  "\<not> explicit_kind_shape two_key_command \<and> \<not> legacy_shape two_key_command
   \<and> normalizeProvisioningCommand nat_number_ops two_key_command
       = Inr (LoadModel (JStr ''gpt-small''))
   \<and> normalizeProvisioningCommand nat_number_ops two_key_command
       \<noteq> Inr (UpsertModelConfig two_key_command)
   \<and> normalizeProvisioningCommand nat_number_ops deep_command = Inl RangeError"
proof -
  have "normalizeProvisioningCommand nat_number_ops two_key_command
          = Inr (LoadModel (JStr ''gpt-small''))"
    by (simp add: two_key_command_def cmd_object normalizeModelId_fixed)
  then show ?thesis
    by (simp add: deep_command_throws)
       (simp add: two_key_command_def explicit_kind_shape_def legacy_shape_def)
qed

text \<open>
  C8, amended. \<open>normalizeProvisioningCommand\<close> maps the legacy single-key shape to the
  explicit-kind shape: \<open>{"LoadModel":"gpt-small"}\<close> becomes
  \<open>{kind:"load_model", model_id:"gpt-small"}\<close>, and so for the other two legacy keys, with
  the model id normalised. An object without one of the three explicit kinds that has a
  legacy key (\<open>UpsertModelConfig\<close> before \<open>LoadModel\<close> before \<open>UnloadModel\<close>) is that legacy
  command, whatever else it holds; an object with neither, and every value that is not an
  object, becomes an \<open>upsert_model_config\<close> that carries the raw payload. The only exception
  it throws is the \<open>RangeError\<close> of \<open>JSON.stringify\<close>, and it returns for every input nested
  no deeper than \<open>JSON.stringify\<close> can enter.
\<close>

theorem normalizeProvisioningCommand_shapes:
  "normalizeProvisioningCommand ops (JObj [(''LoadModel'', JStr ''gpt-small'')])
     = Inr (LoadModel (JStr ''gpt-small''))
   \<and> json_of_command (LoadModel (JStr ''gpt-small''))
     = JObj [(''kind'', JStr ''load_model''), (''model_id'', JStr ''gpt-small'')]
   \<and> normalizeProvisioningCommand ops (JObj [(''UpsertModelConfig'', x)])
     = Inr (UpsertModelConfig x)
   \<and> normalizeProvisioningCommand ops (JObj [(''LoadModel'', x)])
     = and_then (normalizeModelId ops x) (\<lambda>m. Inr (LoadModel m))
   \<and> normalizeProvisioningCommand ops (JObj [(''UnloadModel'', x)])
     = and_then (normalizeModelId ops x) (\<lambda>m. Inr (UnloadModel m))
   \<and> (\<not> explicit_kind_shape (JObj kvs) \<longrightarrow>
        normalizeProvisioningCommand ops (JObj kvs) =
          (case map_of kvs ''UpsertModelConfig'' of
             Some c \<Rightarrow> Inr (UpsertModelConfig c)
           | None \<Rightarrow>
               (case map_of kvs ''LoadModel'' of
                  Some y \<Rightarrow> and_then (normalizeModelId ops y) (\<lambda>m. Inr (LoadModel m))
                | None \<Rightarrow>
                    (case map_of kvs ''UnloadModel'' of
                       Some y \<Rightarrow> and_then (normalizeModelId ops y) (\<lambda>m. Inr (UnloadModel m))
                     | None \<Rightarrow> Inr (UpsertModelConfig (JObj kvs))))))
   \<and> ((\<forall>members. wire \<noteq> JObj members) \<longrightarrow>
        normalizeProvisioningCommand ops wire = Inr (UpsertModelConfig wire))
   \<and> (normalizeProvisioningCommand ops thrown = Inl e \<longrightarrow> e = RangeError)
   \<and> (nesting shallow \<le> stringify_depth ops \<longrightarrow>
        (\<exists>cmd. normalizeProvisioningCommand ops shallow = Inr cmd))"
proof -
  have a: "normalizeProvisioningCommand ops (JObj [(''LoadModel'', JStr ''gpt-small'')])
             = Inr (LoadModel (JStr ''gpt-small''))"
    by (simp add: cmd_object normalizeModelId_fixed)
  have b: "normalizeProvisioningCommand ops (JObj [(''UpsertModelConfig'', x)])
             = Inr (UpsertModelConfig x)"
    "normalizeProvisioningCommand ops (JObj [(''LoadModel'', x)])
       = and_then (normalizeModelId ops x) (\<lambda>m. Inr (LoadModel m))"
    "normalizeProvisioningCommand ops (JObj [(''UnloadModel'', x)])
       = and_then (normalizeModelId ops x) (\<lambda>m. Inr (UnloadModel m))"
    by (simp_all add: cmd_object)
  have c: "normalizeProvisioningCommand ops (JObj kvs) =
          (case map_of kvs ''UpsertModelConfig'' of
             Some c \<Rightarrow> Inr (UpsertModelConfig c)
           | None \<Rightarrow>
               (case map_of kvs ''LoadModel'' of
                  Some y \<Rightarrow> and_then (normalizeModelId ops y) (\<lambda>m. Inr (LoadModel m))
                | None \<Rightarrow>
                    (case map_of kvs ''UnloadModel'' of
                       Some y \<Rightarrow> and_then (normalizeModelId ops y) (\<lambda>m. Inr (UnloadModel m))
                     | None \<Rightarrow> Inr (UpsertModelConfig (JObj kvs)))))"
    if "\<not> explicit_kind_shape (JObj kvs)"
    using that by (simp add: explicit_kind_shape_def cmd_object)
  from a b c cmd_not_object [of wire ops] cmd_error [of ops thrown e] cmd_shallow [of shallow ops]
  show ?thesis by simp
qed

text \<open>
  The two-key command, a wrapped model id, a string, the command nested too deep and an
  unknown single-key command.
\<close>

theorem normalizeProvisioningCommand_shapes_witness:
  "\<not> explicit_kind_shape two_key_command
   \<and> normalizeProvisioningCommand nat_number_ops two_key_command
       = Inr (LoadModel (JStr ''gpt-small''))
   \<and> normalizeProvisioningCommand nat_number_ops (JObj [(''LoadModel'', JArr [JStr ''gpt-small''])])
       = Inr (LoadModel (JStr ''gpt-small''))
   \<and> normalizeProvisioningCommand nat_number_ops (JStr ''LoadModel'')
       = Inr (UpsertModelConfig (JStr ''LoadModel''))
   \<and> normalizeProvisioningCommand nat_number_ops deep_command = Inl RangeError
   \<and> nesting (JObj [(''Reboot'', JNum (2::nat))]) \<le> stringify_depth nat_number_ops
   \<and> normalizeProvisioningCommand nat_number_ops (JObj [(''Reboot'', JNum 2)])
       = Inr (UpsertModelConfig (JObj [(''Reboot'', JNum 2)]))"
proof -
  have k: "\<not> explicit_kind_shape two_key_command"
    "\<not> explicit_kind_shape (JObj [(''Reboot'', JNum (2::nat))])"
    by (simp_all add: two_key_command_def explicit_kind_shape_def)
  have m: "normalizeModelId nat_number_ops (JArr [JStr ''gpt-small'']) = Inr (JStr ''gpt-small'')"
    "normalizeModelId nat_number_ops (JStr ''gpt-small'') = Inr (JStr ''gpt-small'')"
    by (simp_all add: normalizeModelId_def array_index_def is_digit_def)
  have n: "nesting (JObj [(''Reboot'', JNum (2::nat))]) \<le> stringify_depth nat_number_ops"
    by (simp add: nat_number_ops_def)
  have s: "\<forall>members. (JStr ''LoadModel'' :: nat json) \<noteq> JObj members"
    by simp
  from normalizeProvisioningCommand_shapes
      [of nat_number_ops "JArr [JStr ''gpt-small'']"
          "[(''LoadModel'', JStr ''gpt-small''), (''config'', JObj [(''id'', JStr ''gpt-small'')])]"
          "JStr ''LoadModel''" deep_command RangeError "JObj [(''Reboot'', JNum 2)]"]
    normalizeProvisioningCommand_shapes
      [of nat_number_ops "JArr [JStr ''gpt-small'']" "[(''Reboot'', JNum 2)]"
          "JStr ''LoadModel''" deep_command RangeError "JObj [(''Reboot'', JNum 2)]"]
    k m n s deep_command_throws
  show ?thesis
    by (simp add: two_key_command_def)
qed

text \<open>
  C9. Sequence ids are not reused across connection epochs. In a state \<open>s\<close> the component
  reaches from its initial state, the open callback of the current socket empties the log
  and leaves the id counter as it is; the counter never decreases afterwards; every entry
  logged after the reset has an id at or above the counter's value at the reset, and every
  entry that was in the log at any moment before it has an id below that value.
\<close>

theorem ids_not_reused_across_epochs:
  assumes "s = run ops ok before initial" and "wsRef s = Some ws"
    and "fresh = step ops ok (SocketOpened ws) s"
  shows "events fresh = [] \<and> nextEventIdRef fresh = nextEventIdRef s
       \<and> nextEventIdRef s \<le> nextEventIdRef (run ops ok after fresh)
       \<and> (\<forall>new \<in> set (events (run ops ok after fresh)). nextEventIdRef s \<le> item_id new)
       \<and> (\<forall>p q. before = p @ q \<longrightarrow>
             (\<forall>old \<in> set (events (run ops ok p initial)). item_id old < nextEventIdRef s))"
proof -
  have f: "events fresh = []" "nextEventIdRef fresh = nextEventIdRef s"
    using assms(2) by (simp_all add: assms(3) step_def)
  have "(\<forall>e \<in> set (events (run ops ok after fresh)).
            nextEventIdRef s \<le> item_id e
            \<and> item_id e < nextEventIdRef (run ops ok after fresh))
        \<and> nextEventIdRef s \<le> nextEventIdRef (run ops ok after fresh)"
    by (rule run_ids) (simp_all add: f)
  moreover have "item_id old < nextEventIdRef s"
    if "before = p @ q" "old \<in> set (events (run ops ok p initial))" for p q old
  proof -
    from initial_ids [of ops ok p] that(2)
    have "item_id old < nextEventIdRef (run ops ok p initial)" by blast
    also have "\<dots> \<le> nextEventIdRef (run ops ok q (run ops ok p initial))"
      by (rule run_counter_mono)
    also have "\<dots> = nextEventIdRef s"
      by (simp add: assms(1) that(1) run_append)
    finally show ?thesis .
  qed
  ultimately show ?thesis using f by blast
qed

text \<open>
  The first epoch logs the ids 1 and 2. When the socket reports open once more the log is
  emptied, the counter stays at 3, and the next heartbeat is logged under 3.
\<close>

theorem ids_not_reused_across_epochs_witness:
  "wsRef (run nat_number_ops True first_epoch initial) = Some 0
   \<and> map item_id (events (run nat_number_ops True first_epoch initial)) = [1, 2]
   \<and> events (step nat_number_ops True (SocketOpened 0)
               (run nat_number_ops True first_epoch initial)) = []
   \<and> nextEventIdRef (step nat_number_ops True (SocketOpened 0)
                       (run nat_number_ops True first_epoch initial)) = 3
   \<and> map item_id
        (events (run nat_number_ops True
                   [SocketMessage 0 (Some heartbeat_frame) ''12:01:00''
                      ''2026-01-01T12:01:00.000Z'']
                   (step nat_number_ops True (SocketOpened 0)
                      (run nat_number_ops True first_epoch initial)))) = [3]"
  using ids_not_reused_across_epochs
          [where ops = nat_number_ops and ok = True and before = first_epoch and ws = 0
             and after = "[]", OF refl first_epoch_eval(2) refl]
        first_epoch_eval second_epoch_eval
  by simp

text \<open>
  C10, as stated, fails on a frame of kind \<open>snapshot\<close> that has no \<open>snapshot\<close> member (or
  \<open>null\<close> for it): its \<open>neurons\<close> is no array, yet \<open>normalizeSnapshot\<close> throws on reading
  \<open>snapshot.neurons\<close>, the failure is recorded and the table keeps its neurons.
\<close>

theorem snapshot_without_payload_keeps_table:
  "js_get (JObj [(''kind'', JStr ''snapshot'')] :: nat json) ''kind'' = Inr (JStr ''snapshot'')
   \<and> snapshot with_table = Some sample_neurons \<and> sample_neurons \<noteq> []
   \<and> snapshot (step nat_number_ops True
                 (SocketMessage 0 (Some (JObj [(''kind'', JStr ''snapshot'')]))
                    ''12:00:09'' ''2026-01-01T12:00:09.000Z'') with_table)
       = Some sample_neurons
   \<and> lastError (step nat_number_ops True
                 (SocketMessage 0 (Some (JObj [(''kind'', JStr ''snapshot'')]))
                    ''12:00:09'' ''2026-01-01T12:00:09.000Z'') with_table)
       = Some (FailedToParse TypeError)"
  by (simp add: step_def onmessage_def normalizeMessage_def normalizeSnapshot_def rerender_same)
     (simp add: sample_neurons_def)

text \<open>
  C10, amended. For a frame of kind \<open>snapshot\<close> whose \<open>snapshot\<close> member is neither absent nor
  \<open>null\<close> and whose \<open>neurons\<close> member is not an array (a missing member reads as
  \<open>undefined\<close>), \<open>normalizeSnapshot\<close> returns the empty neuron list; the frame is logged as a
  snapshot, the table becomes the empty table, whatever it held, and no error is recorded.
  When the \<open>snapshot\<close> member is absent or \<open>null\<close>, \<open>normalizeSnapshot\<close> throws a
  \<open>TypeError\<close>: the failure is recorded as the last error, nothing is logged and the table
  stays as it is.
\<close>

theorem snapshot_without_array_clears_table:
  assumes "wsRef s = Some ws"
    and "js_get wire ''kind'' = Inr (JStr ''snapshot'')"
    and "js_get wire ''snapshot'' = Inr snap"
    and "s' = step ops ok (SocketMessage ws (Some wire) clockText nowIso) s"
  shows "(js_get snap ''neurons'' = Inr v \<and> (\<forall>xs. v \<noteq> JArr xs) \<longrightarrow>
            normalizeSnapshot ops snap = Inr []
          \<and> snapshot s' = Some []
          \<and> lastError s' = lastError s \<and> connectionStatus s' = connectionStatus s
          \<and> events s' = slice_last 300
               (events s @ [\<lparr>item_id = nextEventIdRef s, receivedAt = clockText,
                             kind = JStr ''snapshot'', eventType = JStr ''snapshot'',
                             payload = Snapshot []\<rparr>]))
       \<and> (snap = JUndefined \<or> snap = JNull \<longrightarrow>
            normalizeSnapshot ops snap = Inl TypeError
          \<and> snapshot s' = snapshot s \<and> events s' = events s
          \<and> connectionStatus s' = connectionStatus s
          \<and> lastError s' = Some (FailedToParse TypeError))"
proof -
  have filled: "normalizeSnapshot ops snap = Inr []
          \<and> snapshot s' = Some []
          \<and> lastError s' = lastError s \<and> connectionStatus s' = connectionStatus s
          \<and> events s' = slice_last 300
               (events s @ [\<lparr>item_id = nextEventIdRef s, receivedAt = clockText,
                             kind = JStr ''snapshot'', eventType = JStr ''snapshot'',
                             payload = Snapshot []\<rparr>])"
    if v: "js_get snap ''neurons'' = Inr v" "\<forall>xs. v \<noteq> JArr xs"
  proof -
    have n: "normalizeSnapshot ops snap = Inr []"
      using v by (cases v) (simp_all add: normalizeSnapshot_def)
    then have m: "normalizeMessage ops wire = Inr (Snapshot [])"
      using assms(2,3) by (simp add: normalizeMessage_def)
    have om: "onmessage ops ws (Some wire) clockText nowIso s
                = s\<lparr>nextEventIdRef := nextEventIdRef s + 1,
                    events := slice_last 300
                      (events s @ [\<lparr>item_id = nextEventIdRef s, receivedAt = clockText,
                                    kind = JStr ''snapshot'', eventType = JStr ''snapshot'',
                                    payload = Snapshot []\<rparr>]),
                    snapshot := Some [], isInitialLoading := False\<rparr>"
      using assms(1) m by (simp add: onmessage_def Let_def)
    have st: "s' = onmessage ops ws (Some wire) clockText nowIso s"
      unfolding assms(4) by (rule step_message_connected [OF assms(1)]) (simp add: om)
    show ?thesis
      by (simp add: n st om)
  qed
  have missing: "normalizeSnapshot ops snap = Inl TypeError
          \<and> snapshot s' = snapshot s \<and> events s' = events s
          \<and> connectionStatus s' = connectionStatus s
          \<and> lastError s' = Some (FailedToParse TypeError)"
    if "snap = JUndefined \<or> snap = JNull"
  proof -
    have n: "normalizeSnapshot ops snap = Inl TypeError"
      using that by (auto simp: normalizeSnapshot_def)
    then have m: "normalizeMessage ops wire = Inl TypeError"
      using assms(2,3) by (simp add: normalizeMessage_def)
    have om: "onmessage ops ws (Some wire) clockText nowIso s
                = s\<lparr>lastError := Some (FailedToParse TypeError)\<rparr>"
      using assms(1) m by (simp add: onmessage_def)
    have st: "s' = onmessage ops ws (Some wire) clockText nowIso s"
      unfolding assms(4) by (rule step_message_connected [OF assms(1)]) (simp add: om)
    show ?thesis
      by (simp add: n st om)
  qed
  from filled missing show ?thesis by blast
qed

text \<open>
  A snapshot frame whose \<open>neurons\<close> is a string empties the sample table without an error;
  one whose \<open>snapshot\<close> is \<open>null\<close> records an error and keeps the table.
\<close>

theorem snapshot_without_array_clears_table_witness:
  "wsRef with_table = Some 0 \<and> snapshot with_table = Some sample_neurons
   \<and> js_get (JObj [(''neurons'', JStr ''none'')] :: nat json) ''neurons'' = Inr (JStr ''none'')
   \<and> snapshot (step nat_number_ops True
                 (SocketMessage 0
                    (Some (JObj [(''kind'', JStr ''snapshot''),
                                 (''snapshot'', JObj [(''neurons'', JStr ''none'')])]))
                    ''12:00:09'' ''2026-01-01T12:00:09.000Z'') with_table) = Some []
   \<and> lastError (step nat_number_ops True
                 (SocketMessage 0
                    (Some (JObj [(''kind'', JStr ''snapshot''),
                                 (''snapshot'', JObj [(''neurons'', JStr ''none'')])]))
                    ''12:00:09'' ''2026-01-01T12:00:09.000Z'') with_table) = None
   \<and> snapshot (step nat_number_ops True
                 (SocketMessage 0
                    (Some (JObj [(''kind'', JStr ''snapshot''), (''snapshot'', JNull)]))
                    ''12:00:09'' ''2026-01-01T12:00:09.000Z'') with_table)
       = Some sample_neurons
   \<and> lastError (step nat_number_ops True
                 (SocketMessage 0
                    (Some (JObj [(''kind'', JStr ''snapshot''), (''snapshot'', JNull)]))
                    ''12:00:09'' ''2026-01-01T12:00:09.000Z'') with_table)
       = Some (FailedToParse TypeError)"
proof -
  have a: "wsRef with_table = Some 0" by simp
  have k: "js_get (JObj [(''kind'', JStr ''snapshot''),
                         (''snapshot'', JObj [(''neurons'', JStr ''none'')])] :: nat json)
             ''kind'' = Inr (JStr ''snapshot'')"
    and p: "js_get (JObj [(''kind'', JStr ''snapshot''),
                         (''snapshot'', JObj [(''neurons'', JStr ''none'')])] :: nat json)
             ''snapshot'' = Inr (JObj [(''neurons'', JStr ''none'')])"
    and k': "js_get (JObj [(''kind'', JStr ''snapshot''), (''snapshot'', JNull)] :: nat json)
             ''kind'' = Inr (JStr ''snapshot'')"
    and p': "js_get (JObj [(''kind'', JStr ''snapshot''), (''snapshot'', JNull)] :: nat json)
             ''snapshot'' = Inr JNull"
    by simp_all
  have v: "js_get (JObj [(''neurons'', JStr ''none'')] :: nat json) ''neurons''
             = Inr (JStr ''none'')"
    by simp
  from snapshot_without_array_clears_table [OF a k p refl,
      of "JStr ''none''" nat_number_ops True "''12:00:09''" "''2026-01-01T12:00:09.000Z''"]
    snapshot_without_array_clears_table [OF a k' p' refl,
      of "JStr ''none''" nat_number_ops True "''12:00:09''" "''2026-01-01T12:00:09.000Z''"]
  show ?thesis
    using v by simp
qed

end
